theory Spec2Isabelle
  imports Main "HOL-Library.Multiset"
begin

section \<open>Documents and collections\<close>

text \<open>
  Every MongoDB document carries an \<open>_id\<close>; object ids are modelled as natural numbers.
  A collection is the list of its documents.  JavaScript numbers that hold counts,
  positions and priorities are modelled as unbounded integers, a field that may be
  \<open>null\<close> or \<open>undefined\<close> as an option, and a point in time as the integer number of
  milliseconds since the epoch.
\<close>

type_synonym oid = nat

subsection \<open>Projects (src/models/Project.js)\<close>

datatype project_status =
  P_pending | P_queued | P_in_progress | P_on_hold | P_review | P_testing
  | P_completed | P_cancelled | P_failed

record project =
  p_id :: oid
  p_priority :: int
  p_category :: string
  p_tags :: "string list"
  p_status :: project_status
  p_queuePosition :: "int option"
  p_queueId :: "oid option"

subsection \<open>Queues (src/models/Queue.js)\<close>

datatype queue_type = Q_fifo | Q_lifo | Q_priority | Q_weighted | Q_round_robin | Q_custom

datatype queue_status = Q_active | Q_paused | Q_disabled | Q_maintenance

record queue =
  q_id :: oid
  q_type :: queue_type
  q_capacity :: int
  q_status :: queue_status
  q_currentSize :: int
  q_owners :: "oid list"
  q_managers :: "oid list"
  q_workers :: "oid list"
  q_viewers :: "oid list"
  q_categories :: "string list"
  q_minPriority :: int
  q_maxPriority :: int
  q_tags :: "string list"
  q_archived :: bool
  q_createdBy :: oid

text \<open>
  Errors raised with \<open>throw new Error(message)\<close>, the \<open>TypeError\<close> of a method call on
  \<open>null\<close>, and the two errors a \<open>save\<close> can raise: a schema validator that fails, and a
  unique index that already holds the key.
\<close>

datatype js_error = Error string | TypeError | ValidationError string | DuplicateKeyError string

subsection \<open>Collection primitives\<close>

text \<open>\<open>Model.findById\<close>: the document with the given id, if any.\<close>

definition findProjectById :: "oid \<Rightarrow> project list \<Rightarrow> project option" where
  "findProjectById i db = find (\<lambda>d. p_id d = i) db"

text \<open>\<open>Model.updateMany(filter, update)\<close>: every matching document is updated in place.\<close>

definition updateMany :: "('a \<Rightarrow> bool) \<Rightarrow> ('a \<Rightarrow> 'a) \<Rightarrow> 'a list \<Rightarrow> 'a list" where
  "updateMany flt upd db = map (\<lambda>d. if flt d then upd d else d) db"

text \<open>\<open>Model.countDocuments(filter)\<close>.\<close>

definition countDocuments :: "('a \<Rightarrow> bool) \<Rightarrow> 'a list \<Rightarrow> int" where
  "countDocuments flt db = int (length (filter flt db))"

text \<open>\<open>project.save()\<close> of a loaded project: the stored document of the same id is replaced.\<close>

definition saveProject :: "project \<Rightarrow> project list \<Rightarrow> project list" where
  "saveProject p db = map (\<lambda>d. if p_id d = p_id p then p else d) db"

text \<open>\<open>{ $inc: { queuePosition: k } }\<close> on a document whose position is a number.\<close>

definition incPosition :: "int \<Rightarrow> project \<Rightarrow> project" where
  "incPosition k d = d\<lparr>p_queuePosition := map_option (\<lambda>n. n + k) (p_queuePosition d)\<rparr>"

text \<open>
  The query operators \<open>$gte\<close> and \<open>$gt\<close> on \<open>queuePosition\<close>: a document whose position is
  \<open>null\<close> matches neither, and a \<open>null\<close> bound matches no number.
\<close>

definition pos_gte :: "int \<Rightarrow> project \<Rightarrow> bool" where
  "pos_gte k d = (case p_queuePosition d of None \<Rightarrow> False | Some n \<Rightarrow> k \<le> n)"

definition pos_gt :: "int option \<Rightarrow> project \<Rightarrow> bool" where
  "pos_gt b d =
     (case b of None \<Rightarrow> False
      | Some k \<Rightarrow> (case p_queuePosition d of None \<Rightarrow> False | Some n \<Rightarrow> k < n))"

subsection \<open>Queue methods\<close>

text \<open>\<open>queueSchema.methods.canAcceptProject\<close>: \<open>None\<close> when the project is accepted, else the reason.\<close>

definition canAcceptProject :: "queue \<Rightarrow> project \<Rightarrow> string option" where
  "canAcceptProject q p =
     (if q_currentSize q \<ge> q_capacity q then Some ''Queue is at full capacity''
      else if q_status q \<noteq> Q_active then Some ''Queue is not active''
      else if p_priority p < q_minPriority q \<or> p_priority p > q_maxPriority q
        then Some ''Project priority is outside acceptable range''
      else if q_categories q \<noteq> [] \<and> p_category p \<notin> set (q_categories q)
        then Some ''Project category is not accepted by this queue''
      else if q_tags q \<noteq> [] \<and> \<not> list_ex (\<lambda>t. t \<in> set (q_tags q)) (p_tags p)
        then Some ''Project does not have required tags''
      else None)"

text \<open>
  \<open>queueSchema.methods.addProject\<close>.  The result is the position returned, the queue and the
  project as saved, and the project collection after the position shifts and the save.
\<close>

definition addProject ::
  "queue \<Rightarrow> project \<Rightarrow> project list \<Rightarrow> js_error + (int \<times> queue \<times> project \<times> project list)" where
  "addProject q p db =
     (case canAcceptProject q p of
        Some reason \<Rightarrow> Inl (Error reason)
      | None \<Rightarrow>
          let q1 = q\<lparr>q_currentSize := q_currentSize q + 1\<rparr>;
              (position, db1) =
                (case q_type q of
                   Q_fifo \<Rightarrow> (q_currentSize q1, db)
                 | Q_lifo \<Rightarrow>
                     (1, updateMany (\<lambda>d. p_queueId d = Some (q_id q) \<and> pos_gte 1 d)
                           (incPosition 1) db)
                 | Q_priority \<Rightarrow>
                     (let higherPriorityCount =
                            countDocuments (\<lambda>d. p_queueId d = Some (q_id q)
                               \<and> p_priority d > p_priority p \<and> p_status d = P_queued) db;
                          position = higherPriorityCount + 1
                      in (position,
                          updateMany (\<lambda>d. p_queueId d = Some (q_id q)
                               \<and> p_priority d \<le> p_priority p \<and> pos_gte position d)
                            (incPosition 1) db))
                 | Q_weighted \<Rightarrow>
                     (let higherPriorityCount =
                            countDocuments (\<lambda>d. p_queueId d = Some (q_id q)
                               \<and> p_priority d > p_priority p \<and> p_status d = P_queued) db;
                          position = higherPriorityCount + 1
                      in (position,
                          updateMany (\<lambda>d. p_queueId d = Some (q_id q)
                               \<and> p_priority d \<le> p_priority p \<and> pos_gte position d)
                            (incPosition 1) db))
                 | _ \<Rightarrow> (q_currentSize q1, db));
              p1 = p\<lparr>p_queueId := Some (q_id q), p_queuePosition := Some position,
                     p_status := P_queued\<rparr>
          in Inr (position, q1, p1, saveProject p1 db1))"

text \<open>
  \<open>queueSchema.methods.removeProject\<close>.  \<open>project.queueId.toString()\<close> raises a TypeError
  when the project has no queue.
\<close>

definition removeProject ::
  "queue \<Rightarrow> project \<Rightarrow> project list \<Rightarrow> js_error + (queue \<times> project \<times> project list)" where
  "removeProject q p db =
     (case p_queueId p of
        None \<Rightarrow> Inl TypeError
      | Some qi \<Rightarrow>
          if qi \<noteq> q_id q then Inl (Error ''Project is not in this queue'')
          else
            let db1 = updateMany (\<lambda>d. p_queueId d = Some (q_id q) \<and> pos_gt (p_queuePosition p) d)
                        (incPosition (- 1)) db;
                q1 = q\<lparr>q_currentSize := max 0 (q_currentSize q - 1)\<rparr>;
                p1 = p\<lparr>p_queueId := None, p_queuePosition := None\<rparr>
            in Inr (q1, p1, saveProject p1 db1))"

text \<open>
  \<open>queueSchema.methods.getNextProject\<close>: \<open>findOne\<close> with a sort returns the first document
  of the sorted result; among equal sort keys the collection order decides, which is the
  order of creation (the second sort key \<open>createdAt\<close> of the default branch).
\<close>

fun firstBy :: "('a \<Rightarrow> 'a \<Rightarrow> bool) \<Rightarrow> 'a list \<Rightarrow> 'a option" where
  "firstBy sortsBefore [] = None"
| "firstBy sortsBefore (x # xs) =
     (case firstBy sortsBefore xs of
        None \<Rightarrow> Some x
      | Some y \<Rightarrow> if sortsBefore y x then Some y else Some x)"

text \<open>Ascending order on a field that may be \<open>null\<close>: \<open>null\<close> sorts before every number.\<close>

definition opt_less :: "int option \<Rightarrow> int option \<Rightarrow> bool" where
  "opt_less a b =
     (case b of None \<Rightarrow> False
      | Some n \<Rightarrow> (case a of None \<Rightarrow> True | Some m \<Rightarrow> m < n))"

definition getNextProject :: "queue \<Rightarrow> project list \<Rightarrow> project option" where
  "getNextProject q db =
     (let queued = filter (\<lambda>d. p_queueId d = Some (q_id q) \<and> p_status d = P_queued) db
      in case q_type q of
           Q_fifo \<Rightarrow> firstBy (\<lambda>a b. opt_less (p_queuePosition a) (p_queuePosition b)) queued
         | Q_priority \<Rightarrow> firstBy (\<lambda>a b. opt_less (p_queuePosition a) (p_queuePosition b)) queued
         | Q_weighted \<Rightarrow> firstBy (\<lambda>a b. opt_less (p_queuePosition a) (p_queuePosition b)) queued
         | Q_lifo \<Rightarrow> firstBy (\<lambda>a b. opt_less (p_queuePosition b) (p_queuePosition a)) queued
         | _ \<Rightarrow> firstBy (\<lambda>a b. p_priority a > p_priority b) queued)"

text \<open>
  The positions of the projects of a queue, in collection order.
\<close>

definition queuePositions :: "oid \<Rightarrow> project list \<Rightarrow> int option list" where
  "queuePositions qi db = map p_queuePosition (filter (\<lambda>d. p_queueId d = Some qi) db)"

text \<open>
  A request against a queue: adding a stored project that is in no queue (the guard
  \<open>if (project.queueId) throw\<close> of \<open>addProjectToQueue\<close> in src/services/queueService.js),
  or removing a stored project.  A request that throws leaves queue and collection as
  they were: every \<open>throw\<close> of \<open>addProject\<close> and \<open>removeProject\<close> precedes their first write.
\<close>

datatype queue_request = AddRequest oid | RemoveRequest oid

fun queueStep :: "queue \<times> project list \<Rightarrow> queue_request \<Rightarrow> queue \<times> project list" where
  "queueStep (q, db) (AddRequest i) =
     (case findProjectById i db of
        None \<Rightarrow> (q, db)
      | Some p \<Rightarrow>
          if p_queueId p \<noteq> None then (q, db)
          else (case addProject q p db of
                  Inl e \<Rightarrow> (q, db)
                | Inr (position, q1, p1, db1) \<Rightarrow> (q1, db1)))"
| "queueStep (q, db) (RemoveRequest i) =
     (case findProjectById i db of
        None \<Rightarrow> (q, db)
      | Some p \<Rightarrow>
          (case removeProject q p db of
             Inl e \<Rightarrow> (q, db)
           | Inr (q1, p1, db1) \<Rightarrow> (q1, db1)))"

definition queueRun :: "queue \<times> project list \<Rightarrow> queue_request list \<Rightarrow> queue \<times> project list" where
  "queueRun s rs = foldl queueStep s rs"

subsection \<open>Reordering (src/services/queueService.js)\<close>

text \<open>
  The user id as a caller hands it over: the hexadecimal string of an object id, or the
  ObjectId itself, which is what the route passes (\<open>req.user._id\<close>).  A query casts either
  form to the object id.
\<close>

datatype user_ref = IdString oid | IdObject oid

fun idOf :: "user_ref \<Rightarrow> oid" where
  "idOf (IdString i) = i"
| "idOf (IdObject i) = i"

text \<open>
  \<open>getQueueById\<close>: the queue of the given id that is not archived and that the user created
  or holds a role in.  The query populates the four role arrays of the queue it returns.
\<close>

definition getQueueById :: "queue list \<Rightarrow> oid \<Rightarrow> user_ref \<Rightarrow> queue option" where
  "getQueueById queues queueId userId =
     find (\<lambda>q. q_id q = queueId \<and> \<not> q_archived q
              \<and> (q_createdBy q = idOf userId \<or> idOf userId \<in> set (q_owners q)
                   \<or> idOf userId \<in> set (q_managers q) \<or> idOf userId \<in> set (q_workers q)
                   \<or> idOf userId \<in> set (q_viewers q))) queues"

text \<open>
  \<open>queue.createdBy.toString() === userId\<close>: strict equality with the string of the creator's
  id, which holds for that string and for no ObjectId.
\<close>

definition createdByEquals :: "queue \<Rightarrow> user_ref \<Rightarrow> bool" where
  "createdByEquals q userId =
     (case userId of IdString i \<Rightarrow> q_createdBy q = i | IdObject i \<Rightarrow> False)"

text \<open>
  \<open>array.includes(userId)\<close> on a role array of the queue that \<open>getQueueById\<close> returned.  The
  array is populated, so its elements are User documents, and \<open>includes\<close> compares the id,
  as a string, with each element by \<open>==\<close>: a document equals no id string, so no element
  matches.
\<close>

definition includesPopulated :: "oid list \<Rightarrow> user_ref \<Rightarrow> bool" where
  "includesPopulated documents userId = list_ex (\<lambda>document. False) documents"

text \<open>One \<open>updateOne\<close> operation of a bulk write: the first matching document is updated.\<close>

fun updateOne :: "('a \<Rightarrow> bool) \<Rightarrow> ('a \<Rightarrow> 'a) \<Rightarrow> 'a list \<Rightarrow> 'a list" where
  "updateOne flt upd [] = []"
| "updateOne flt upd (d # ds) = (if flt d then upd d # ds else d # updateOne flt upd ds)"

text \<open>
  \<open>Project.bulkWrite(updates)\<close> for the operations built by
  \<open>projectOrder.map((projectId, index) => ...)\<close>: they run in order, the operation at
  \<open>index\<close> setting \<open>queuePosition\<close> to \<open>index + 1\<close> on the project of that id in this queue.
\<close>

fun bulkWritePositions :: "oid \<Rightarrow> oid list \<Rightarrow> nat \<Rightarrow> project list \<Rightarrow> project list" where
  "bulkWritePositions qi [] index db = db"
| "bulkWritePositions qi (projectId # rest) index db =
     bulkWritePositions qi rest (Suc index)
       (updateOne (\<lambda>d. p_id d = projectId \<and> p_queueId d = Some qi)
          (\<lambda>d. d\<lparr>p_queuePosition := Some (int index + 1)\<rparr>) db)"

definition reorderQueue ::
  "queue list \<Rightarrow> project list \<Rightarrow> oid \<Rightarrow> oid list \<Rightarrow> user_ref
     \<Rightarrow> js_error + (oid list \<times> project list)" where
  "reorderQueue queues db queueId projectOrder userId =
     (case getQueueById queues queueId userId of
        None \<Rightarrow> Inl (Error ''Queue not found or access denied'')
      | Some q \<Rightarrow>
          let canReorder = (createdByEquals q userId \<or> includesPopulated (q_owners q) userId
                             \<or> includesPopulated (q_managers q) userId)
          in if \<not> canReorder then Inl (Error ''Insufficient permissions to reorder queue'')
             else Inr (projectOrder, bulkWritePositions (q_id q) projectOrder 0 db))"

section \<open>Tokens, departments and counters\<close>

subsection \<open>Tokens (src/models/Token.js)\<close>

text \<open>
  The status of a token is kept as the string the code compares and assigns.  The schema
  is strict: a field the controller assigns that the schema does not declare
  (\<open>cancelledAt\<close>, \<open>cancelledBy\<close>, \<open>cancellationReason\<close>, \<open>completionNotes\<close>, \<open>rating\<close>,
  \<open>servedAt\<close>) is not stored, and such a field reads as \<open>undefined\<close> on a loaded token.
  The same holds of the entries of \<open>transferHistory\<close>, whose schema declares the fields of
  this record; a field that an entry is pushed without is \<open>None\<close>.
\<close>

record transfer =
  tr_fromDepartment :: "oid option"
  tr_toDepartment :: "oid option"
  tr_fromCounter :: "oid option"
  tr_toCounter :: "oid option"
  tr_reason :: string
  tr_transferredBy :: oid
  tr_transferredAt :: int

record token =
  t_id :: oid
  t_tokenNumber :: string
  t_displayNumber :: string
  t_customer :: oid
  t_department :: oid
  t_serviceType :: string
  t_counter :: "oid option"
  t_priority :: int
  t_queuePosition :: "int option"
  t_status :: string
  t_issuedAt :: int
  t_calledAt :: "int option"
  t_serviceStartedAt :: "int option"
  t_completedAt :: "int option"
  t_waitTime :: int
  t_serviceTime :: int
  t_serviceNotes :: "string option"
  t_satisfactionRating :: "int option"
  t_transferHistory :: "transfer list"
  t_notifiedCalled :: bool
  t_notifiedCompleted :: bool
  t_createdBy :: oid
  t_lastModifiedBy :: "oid option"
  t_businessDate :: int

record department =
  d_id :: oid
  d_code :: string
  d_archived :: bool


text \<open>
  The clock of one request: the current time, the first ten characters of its
  \<open>toISOString()\<close>, and the local midnight that begins its day
  (\<open>new Date().setHours(0, 0, 0, 0)\<close>).  A day has 86400000 milliseconds.
\<close>

record clock =
  now :: int
  isoDate :: string
  dayStart :: int

definition findTokenById :: "oid \<Rightarrow> token list \<Rightarrow> token option" where
  "findTokenById i tokens = find (\<lambda>t. t_id t = i) tokens"

definition findDepartmentById :: "oid \<Rightarrow> department list \<Rightarrow> department option" where
  "findDepartmentById i depts = find (\<lambda>d. d_id d = i) depts"


text \<open>\<open>Math.round(ms / (1000 * 60))\<close>: the nearest minute, a half rounding up.\<close>

definition roundMinutes :: "int \<Rightarrow> int" where
  "roundMinutes ms = (ms + 30000) div 60000"

text \<open>
  The pre-save hook: \<open>stored\<close> is the document as loaded, against which \<open>isModified\<close>
  compares.  The business date is always set on a stored token.
\<close>

definition preSave :: "token \<Rightarrow> token \<Rightarrow> token" where
  "preSave stored t =
     (let t1 = (case t_serviceStartedAt t of
                  None \<Rightarrow> t
                | Some s \<Rightarrow>
                    if t_serviceStartedAt stored = Some s then t
                    else t\<lparr>t_waitTime := roundMinutes (s - t_issuedAt t)\<rparr>)
      in case t_completedAt t1 of
           None \<Rightarrow> t1
         | Some c \<Rightarrow>
             if t_completedAt stored = Some c then t1
             else (case t_serviceStartedAt t1 of
                     None \<Rightarrow> t1
                   | Some s \<Rightarrow> t1\<lparr>t_serviceTime := roundMinutes (c - s)\<rparr>))"

text \<open>
  \<open>token.save()\<close> of a token loaded as \<open>stored\<close>: the hook runs, then the stored document
  of that id is replaced.  The result is the token as saved and the collection.
\<close>

definition saveToken :: "token \<Rightarrow> token \<Rightarrow> token list \<Rightarrow> token \<times> token list" where
  "saveToken stored t tokens =
     (let t1 = preSave stored t
      in (t1, map (\<lambda>d. if t_id d = t_id t1 then t1 else d) tokens))"

text \<open>\<open>String.prototype.toUpperCase\<close> on the ASCII characters a token number is made of.\<close>

definition toUpperCase :: "string \<Rightarrow> string" where
  "toUpperCase s =
     map (\<lambda>c. if 97 \<le> (of_char c :: nat) \<and> (of_char c :: nat) \<le> 122
              then char_of ((of_char c :: nat) - 32) else c) s"

text \<open>
  \<open>save()\<close> of a new token: the schema stores \<open>tokenNumber\<close> in upper case
  (\<open>uppercase: true\<close>), the validators of \<open>priority\<close> (\<open>min: 1\<close>, \<open>max: 10\<close>) run, and the
  unique index on \<open>tokenNumber\<close> refuses a number that is already stored.
\<close>

definition insertToken :: "token \<Rightarrow> token list \<Rightarrow> js_error + (token \<times> token list)" where
  "insertToken t tokens =
     (let t1 = t\<lparr>t_tokenNumber := toUpperCase (t_tokenNumber t)\<rparr>
      in if t_priority t1 < 1 \<or> t_priority t1 > 10 then Inl (ValidationError ''priority'')
         else if t_tokenNumber t1 \<in> set (map t_tokenNumber tokens)
           then Inl (DuplicateKeyError (t_tokenNumber t1))
         else Inr (t1, tokens @ [t1]))"

text \<open>A fresh object id for a new document.\<close>

definition freshId :: "token list \<Rightarrow> oid" where
  "freshId tokens = Suc (foldr max (map t_id tokens) 0)"

subsection \<open>Token numbers\<close>

text \<open>Byte-wise comparison of strings, the order of a sort on a string field.\<close>

fun str_less :: "string \<Rightarrow> string \<Rightarrow> bool" where
  "str_less [] [] = False"
| "str_less [] (y # ys) = True"
| "str_less (x # xs) [] = False"
| "str_less (x # xs) (y # ys) =
     (if x = y then str_less xs ys else (of_char x :: nat) < of_char y)"

text \<open>
  The department code is made of capital letters and digits (the \<open>match\<close> validator of
  src/models/Department.js) and the date string of digits, so the regular expression
  \<open>^prefix\<close> matches exactly the strings that begin with the prefix.
\<close>

definition startsWith :: "string \<Rightarrow> string \<Rightarrow> bool" where
  "startsWith prefix s = (take (length prefix) s = prefix)"

text \<open>\<open>s.split('-').pop()\<close>: what follows the last hyphen.\<close>

definition lastSegment :: "string \<Rightarrow> string" where
  "lastSegment s = rev (takeWhile (\<lambda>c. c \<noteq> CHR ''-'') (rev s))"

definition isDigit :: "char \<Rightarrow> bool" where
  "isDigit c = (48 \<le> (of_char c :: nat) \<and> (of_char c :: nat) \<le> 57)"

text \<open>
  \<open>parseInt\<close> on a string without sign, leading blanks or radix prefix, which is what the
  last segment of a stored token number is: the value of the leading decimal digits, and
  \<open>NaN\<close> (\<open>None\<close>) when there is none.
\<close>

definition parseInt :: "string \<Rightarrow> nat option" where
  "parseInt s =
     (let ds = takeWhile isDigit s
      in if ds = [] then None
         else Some (foldl (\<lambda>a c. 10 * a + ((of_char c :: nat) - 48)) 0 ds))"

text \<open>\<open>String(n)\<close> for a natural number.\<close>

definition digitChar :: "nat \<Rightarrow> char" where
  "digitChar n = ''0123456789'' ! n"

fun showNat :: "nat \<Rightarrow> string" where
  "showNat n =
     (if n < 10 then [digitChar n]
      else showNat (n div 10) @ [digitChar (n mod 10)])"

declare showNat.simps [simp del]

definition padStart :: "nat \<Rightarrow> char \<Rightarrow> string \<Rightarrow> string" where
  "padStart w c s = replicate (w - length s) c @ s"

text \<open>
  \<open>tokenSchema.statics.generateTokenNumber\<close>.  The query sorts by \<open>tokenNumber\<close> descending;
  \<open>new Date(y, m, d)\<close> and \<open>new Date(y, m, d + 1)\<close> are the local midnights around the date.
\<close>

definition generateTokenNumber ::
  "department list \<Rightarrow> token list \<Rightarrow> oid \<Rightarrow> clock \<Rightarrow> js_error + (string \<times> string)" where
  "generateTokenNumber depts tokens departmentId date =
     (case findDepartmentById departmentId depts of
        None \<Rightarrow> Inl (Error ''Department not found'')
      | Some dept \<Rightarrow>
          let dateStr = filter (\<lambda>c. c \<noteq> CHR ''-'') (isoDate date);
              prefix = d_code dept @ ''-'' @ dateStr @ ''-'';
              lastToken =
                firstBy (\<lambda>a b. str_less (t_tokenNumber b) (t_tokenNumber a))
                  (filter (\<lambda>t. startsWith prefix (t_tokenNumber t)
                             \<and> dayStart date \<le> t_businessDate t
                             \<and> t_businessDate t < dayStart date + 86400000) tokens);
              nextNumber =
                (case lastToken of
                   None \<Rightarrow> Some 1
                 | Some t \<Rightarrow> map_option (\<lambda>n. n + 1) (parseInt (lastSegment (t_tokenNumber t))));
              digits = padStart 3 (CHR ''0'')
                         (case nextNumber of None \<Rightarrow> ''NaN'' | Some n \<Rightarrow> showNat n)
          in Inr (prefix @ digits, d_code dept @ digits))"

text \<open>\<open>tokenSchema.statics.generateToken\<close>, with the schema defaults of a new token filled in.\<close>

definition generateToken ::
  "department list \<Rightarrow> token list \<Rightarrow> oid \<Rightarrow> oid option \<Rightarrow> oid \<Rightarrow> int \<Rightarrow> oid \<Rightarrow> clock
     \<Rightarrow> js_error + (token \<times> token list)" where
  "generateToken depts tokens departmentId counterId customerId priority userId clk =
     (case generateTokenNumber depts tokens departmentId clk of
        Inl e \<Rightarrow> Inl e
      | Inr (tokenNumber, displayNumber) \<Rightarrow>
          let queueCount =
                countDocuments (\<lambda>t. t_department t = departmentId
                    \<and> (t_status t = ''waiting'' \<or> t_status t = ''called'')
                    \<and> dayStart clk \<le> t_businessDate t
                    \<and> t_businessDate t < dayStart clk + 86399999) tokens
          in insertToken
               \<lparr>t_id = freshId tokens,
                t_tokenNumber = tokenNumber,
                t_displayNumber = displayNumber,
                t_customer = customerId,
                t_department = departmentId,
                t_serviceType = ''general'',
                t_counter = counterId,
                t_priority = priority,
                t_queuePosition = Some (queueCount + 1),
                t_status = ''waiting'',
                t_issuedAt = now clk,
                t_calledAt = None,
                t_serviceStartedAt = None,
                t_completedAt = None,
                t_waitTime = 0,
                t_serviceTime = 0,
                t_serviceNotes = None,
                t_satisfactionRating = None,
                t_transferHistory = [],
                t_notifiedCalled = False,
                t_notifiedCompleted = False,
                t_createdBy = userId,
                t_lastModifiedBy = None,
                t_businessDate = dayStart clk\<rparr>
               tokens)"

text \<open>\<open>tokenSchema.methods.callToken\<close>.\<close>

definition callToken :: "token \<Rightarrow> oid \<Rightarrow> oid option \<Rightarrow> int \<Rightarrow> token list \<Rightarrow> token \<times> token list" where
  "callToken t counterId userId at tokens =
     saveToken t
       (t\<lparr>t_status := ''called'', t_calledAt := Some at, t_counter := Some counterId,
          t_lastModifiedBy := userId, t_notifiedCalled := True\<rparr>)
       tokens"

text \<open>
  \<open>tokenSchema.methods.completeService\<close>.  The method has no condition on the status.  Its
  \<open>save\<close> runs the validator of \<open>satisfactionRating\<close> (\<open>min: 1\<close>, \<open>max: 5\<close>) when a rating is
  given, and the pre-save hook.
\<close>

definition completeService ::
  "token \<Rightarrow> oid option \<Rightarrow> string option \<Rightarrow> int option \<Rightarrow> int \<Rightarrow> token list
     \<Rightarrow> js_error + (token \<times> token list)" where
  "completeService t userId notes rating at tokens =
     (let t1 = t\<lparr>t_status := ''completed'', t_completedAt := Some at, t_serviceNotes := notes,
                 t_satisfactionRating := rating, t_lastModifiedBy := userId,
                 t_notifiedCompleted := True\<rparr>
      in case rating of
           None \<Rightarrow> Inr (saveToken t t1 tokens)
         | Some r \<Rightarrow>
             if r < 1 \<or> r > 5 then Inl (ValidationError ''satisfactionRating'')
             else Inr (saveToken t t1 tokens))"

subsection \<open>Counters (the Counter model, src/unnamed/part_011)\<close>

datatype counter_status = C_active | C_inactive | C_busy | C_break | C_closed | C_maintenance

record counter =
  c_id :: oid
  c_department :: oid
  c_status :: counter_status
  c_currentOperator :: "oid option"
  c_currentToken :: "oid option"
  c_lastTokenCalledAt :: "int option"
  c_lastServiceCompletedAt :: "int option"
  c_archived :: bool

text \<open>
  The sort \<open>{ priority: -1, queuePosition: 1 }\<close>: higher priority first, then lower
  position, a missing position before every number.
\<close>

definition callOrder :: "token \<Rightarrow> token \<Rightarrow> bool" where
  "callOrder a b =
     (t_priority a > t_priority b
      \<or> (t_priority a = t_priority b \<and> opt_less (t_queuePosition a) (t_queuePosition b)))"

text \<open>
  \<open>counterSchema.methods.callNextToken\<close>: the token returned (or \<open>null\<close>), the counter and
  the token collection afterwards.
\<close>

definition callNextToken :: "counter \<Rightarrow> token list \<Rightarrow> clock \<Rightarrow> token option \<times> counter \<times> token list" where
  "callNextToken c tokens clk =
     (case firstBy callOrder
             (filter (\<lambda>t. t_department t = c_department c \<and> t_status t = ''waiting''
                        \<and> dayStart clk \<le> t_businessDate t
                        \<and> t_businessDate t < dayStart clk + 86399999) tokens) of
        None \<Rightarrow> (None, c, tokens)
      | Some nextToken \<Rightarrow>
          let (called, tokens1) =
                callToken nextToken (c_id c) (c_currentOperator c) (now clk) tokens;
              c1 = c\<lparr>c_currentToken := Some (t_id called), c_status := C_busy,
                     c_lastTokenCalledAt := Some (now clk)\<rparr>
          in (Some called, c1, tokens1))"

text \<open>
  \<open>counterSchema.methods.completeCurrentService\<close>: the token returned (\<open>null\<close> when the
  current token is not stored), the counter and the token collection afterwards.  The
  call of \<open>callNextToken\<close> that the method schedules two seconds later is a later request.
\<close>

definition completeCurrentService ::
  "counter \<Rightarrow> string option \<Rightarrow> int option \<Rightarrow> int \<Rightarrow> token list
     \<Rightarrow> js_error + (token option \<times> counter \<times> token list)" where
  "completeCurrentService c notes rating at tokens =
     (case c_currentToken c of
        None \<Rightarrow> Inl (Error ''No active token to complete'')
      | Some tokenId \<Rightarrow>
          let c1 = c\<lparr>c_currentToken := None, c_status := C_active,
                     c_lastServiceCompletedAt := Some at\<rparr>
          in case findTokenById tokenId tokens of
               None \<Rightarrow> Inr (None, c1, tokens)
             | Some t \<Rightarrow>
                 (case completeService t (c_currentOperator c) notes rating at tokens of
                    Inl e \<Rightarrow> Inl e
                  | Inr (t1, tokens1) \<Rightarrow> Inr (Some t1, c1, tokens1)))"


subsection \<open>Token controller (src/controllers/tokenController.js)\<close>

text \<open>
  A handler either answers with the token or passes \<open>new AppError(message, statusCode)\<close> to
  \<open>next\<close>; the model returns that outcome together with the token collection afterwards.
\<close>

datatype app_error = AppError string nat

text \<open>
  \<open>completeToken\<close>.  \<open>token.servedAt\<close> is not a field of the schema, so the service time the
  handler computes is 0; the pre-save hook then derives it from \<open>serviceStartedAt\<close>.  The
  notes and the rating of the request, like the reason of \<open>cancelToken\<close>, go to fields the
  schema does not declare, so the model leaves them out.
\<close>

definition completeToken :: "token list \<Rightarrow> oid \<Rightarrow> int \<Rightarrow> (app_error + token) \<times> token list" where
  "completeToken tokens tokenId at =
     (case findTokenById tokenId tokens of
        None \<Rightarrow> (Inl (AppError ''Token not found'' 404), tokens)
      | Some t \<Rightarrow>
          if t_status t \<noteq> ''serving'' then (Inl (AppError ''Token is not being served'' 400), tokens)
          else
            let (t1, tokens1) =
                  saveToken t (t\<lparr>t_status := ''completed'', t_completedAt := Some at,
                                 t_serviceTime := 0\<rparr>) tokens
            in (Inr t1, tokens1))"

definition cancelToken :: "token list \<Rightarrow> oid \<Rightarrow> (app_error + token) \<times> token list" where
  "cancelToken tokens tokenId =
     (case findTokenById tokenId tokens of
        None \<Rightarrow> (Inl (AppError ''Token not found'' 404), tokens)
      | Some t \<Rightarrow>
          if \<not> (t_status t = ''waiting'' \<or> t_status t = ''called'')
          then (Inl (AppError ''Token cannot be cancelled'' 400), tokens)
          else
            let (t1, tokens1) = saveToken t (t\<lparr>t_status := ''cancelled''\<rparr>) tokens
            in (Inr t1, tokens1))"

text \<open>
  \<open>transferToken\<close>.  The handler pushes a history entry with the keys \<open>from\<close>, \<open>to\<close>,
  \<open>reason\<close>, \<open>transferredBy\<close> and \<open>transferredAt\<close>.  The schema of the entries declares no
  \<open>from\<close> and no \<open>to\<close>, so the old and the new department and counter are not stored: the
  entry holds the reason, the user and the time.
\<close>

definition transferToken ::
  "token list \<Rightarrow> oid \<Rightarrow> oid \<Rightarrow> oid option \<Rightarrow> string \<Rightarrow> oid \<Rightarrow> int
     \<Rightarrow> (app_error + token) \<times> token list" where
  "transferToken tokens tokenId targetDepartmentId targetCounterId reason userId at =
     (case findTokenById tokenId tokens of
        None \<Rightarrow> (Inl (AppError ''Token not found'' 404), tokens)
      | Some t \<Rightarrow>
          if t_status t = ''completed'' \<or> t_status t = ''cancelled''
          then (Inl (AppError ''Token cannot be transferred'' 400), tokens)
          else
            let (t1, tokens1) =
                  saveToken t
                    (t\<lparr>t_department := targetDepartmentId, t_counter := targetCounterId,
                       t_status := ''waiting'',
                       t_transferHistory := t_transferHistory t @
                         [\<lparr>tr_fromDepartment = None, tr_toDepartment = None,
                           tr_fromCounter = None, tr_toCounter = None,
                           tr_reason = reason, tr_transferredBy = userId,
                           tr_transferredAt = at\<rparr>]\<rparr>)
                    tokens
            in (Inr t1, tokens1))"

subsection \<open>Customer controller (src/controllers/customerController.js)\<close>



text \<open>
  The waiting set of a department and the queue positions in it, in collection order, and
  the active tokens of a customer on a business date.
\<close>

definition waitingSet :: "oid \<Rightarrow> token list \<Rightarrow> token list" where
  "waitingSet dept tokens = filter (\<lambda>t. t_department t = dept \<and> t_status t = ''waiting'') tokens"

definition waitingPositions :: "oid \<Rightarrow> token list \<Rightarrow> (oid \<times> int option) list" where
  "waitingPositions dept tokens = map (\<lambda>t. (t_id t, t_queuePosition t)) (waitingSet dept tokens)"


section \<open>The invariant of a queue\<close>

text \<open>
  The projects of a queue, and what the collection satisfies between requests: some
  enumeration of the queue's projects has the positions 1, 2, ... in turn, every one of
  them is queued, the size counter is their number, and in a queue ordered by priority
  the priorities never increase along the enumeration.
\<close>

definition members :: "oid \<Rightarrow> project list \<Rightarrow> project list" where
  "members qi db = filter (\<lambda>d. p_queueId d = Some qi) db"

definition posOK :: "project list \<Rightarrow> bool" where
  "posOK ms \<longleftrightarrow>
     (\<forall>i<length ms. p_queuePosition (ms ! i) = Some (int i + 1) \<and> p_status (ms ! i) = P_queued)"

definition byPriority :: "project list \<Rightarrow> bool" where
  "byPriority ms \<longleftrightarrow> sorted_wrt (\<lambda>a b. p_priority a \<ge> p_priority b) ms"

definition enumerates :: "queue \<Rightarrow> project list \<Rightarrow> project list \<Rightarrow> bool" where
  "enumerates q db ms \<longleftrightarrow>
     mset ms = mset (members (q_id q) db)
     \<and> q_currentSize q = int (length ms)
     \<and> posOK ms
     \<and> (q_type q \<in> {Q_priority, Q_weighted} \<longrightarrow> byPriority ms)"

definition queueInv :: "queue \<Rightarrow> project list \<Rightarrow> bool" where
  "queueInv q db \<longleftrightarrow> distinct (map p_id db) \<and> (\<exists>ms. enumerates q db ms)"

section \<open>Example data\<close>

definition exampleQueue :: "queue_type \<Rightarrow> queue" where
  "exampleQueue ty =
     \<lparr>q_id = 1, q_type = ty, q_capacity = 1000, q_status = Q_active, q_currentSize = 0,
      q_owners = [9], q_managers = [], q_workers = [], q_viewers = [], q_categories = [],
      q_minPriority = 1, q_maxPriority = 10, q_tags = [], q_archived = False,
      q_createdBy = 9\<rparr>"

definition exampleProject :: "oid \<Rightarrow> int \<Rightarrow> project" where
  "exampleProject i priority =
     \<lparr>p_id = i, p_priority = priority, p_category = ''development'', p_tags = [],
      p_status = P_pending, p_queuePosition = None, p_queueId = None\<rparr>"

text \<open>A project as \<open>addProject\<close> leaves it in queue 1.\<close>

definition queuedProject :: "oid \<Rightarrow> int \<Rightarrow> int \<Rightarrow> project" where
  "queuedProject i priority position =
     (exampleProject i priority)\<lparr>p_status := P_queued, p_queuePosition := Some position,
        p_queueId := Some 1\<rparr>"

definition exampleDepartments :: "department list" where
  "exampleDepartments =
     [\<lparr>d_id = 1, d_code = ''CS'', d_archived = False\<rparr>,
      \<lparr>d_id = 2, d_code = ''HR'', d_archived = False\<rparr>]"


text \<open>A request at 2024-12-01 10:46:40 UTC on a server whose local time is UTC.\<close>

definition exampleClock :: clock where
  "exampleClock = \<lparr>now = 1733050000000, isoDate = ''2024-12-01'', dayStart = 1733011200000\<rparr>"

text \<open>
  The token that \<open>generateToken\<close> stores at the example clock for user 9, given its id, the
  digits of its number, customer, department, priority and position.  The number begins
  with the code of the department that issued it, \<open>HR\<close> for department 2 and \<open>CS\<close> otherwise.
\<close>

definition exampleToken :: "oid \<Rightarrow> string \<Rightarrow> oid \<Rightarrow> oid \<Rightarrow> int \<Rightarrow> int \<Rightarrow> token" where
  "exampleToken i digits customerId departmentId priority position =
     \<lparr>t_id = i,
      t_tokenNumber = (if departmentId = 2 then ''HR'' else ''CS'') @ ''-20241201-'' @ digits,
      t_displayNumber = (if departmentId = 2 then ''HR'' else ''CS'') @ digits,
      t_customer = customerId,
      t_department = departmentId,
      t_serviceType = ''general'',
      t_counter = None,
      t_priority = priority,
      t_queuePosition = Some position,
      t_status = ''waiting'',
      t_issuedAt = 1733050000000,
      t_calledAt = None,
      t_serviceStartedAt = None,
      t_completedAt = None,
      t_waitTime = 0,
      t_serviceTime = 0,
      t_serviceNotes = None,
      t_satisfactionRating = None,
      t_transferHistory = [],
      t_notifiedCalled = False,
      t_notifiedCompleted = False,
      t_createdBy = 9,
      t_lastModifiedBy = None,
      t_businessDate = 1733011200000\<rparr>"

definition exampleCounter :: "oid option \<Rightarrow> counter" where
  "exampleCounter current =
     \<lparr>c_id = 4, c_department = 1, c_status = C_active, c_currentOperator = Some 9,
      c_currentToken = current, c_lastTokenCalledAt = None, c_lastServiceCompletedAt = None,
      c_archived = False\<rparr>"

text \<open>The token collection after \<open>generateToken\<close>, unchanged when it raises.\<close>

definition issued :: "token list \<Rightarrow> oid \<Rightarrow> int \<Rightarrow> token list" where
  "issued tokens customerId priority =
     (case generateToken exampleDepartments tokens 1 None customerId priority 9 exampleClock of
        Inl e \<Rightarrow> tokens
      | Inr (t, tokens1) \<Rightarrow> tokens1)"

section \<open>Position contiguity of a queue\<close>

subsection \<open>Collections under save and update\<close>

lemma findProjectById_Some:
  "findProjectById i db = Some p \<Longrightarrow> p \<in> set db \<and> p_id p = i"
  by (auto simp: findProjectById_def find_Some_iff)

lemma ids_saveProject: "map p_id (saveProject p db) = map p_id db"
  by (induction db) (auto simp: saveProject_def)

lemma ids_updateMany_inc: "map p_id (updateMany F (incPosition k) db) = map p_id db"
  by (induction db) (auto simp: updateMany_def incPosition_def)

lemma mset_saveProject:
  "distinct (map p_id db) \<Longrightarrow> p \<in> set db \<Longrightarrow> p_id p1 = p_id p \<Longrightarrow>
   mset (saveProject p1 db) = add_mset p1 (mset db - {#p#})"
proof (induction db)
  case Nil
  then show ?case by simp
next
  case (Cons d db)
  show ?case
  proof (cases "d = p")
    case True
    from Cons.prems True have "p_id p \<notin> p_id ` set db" by simp
    with Cons.prems(3) have "\<forall>e \<in> set db. p_id e \<noteq> p_id p1" by (metis imageI)
    then have "saveProject p1 db = db" by (simp add: saveProject_def map_idI)
    with True Cons.prems show ?thesis by (simp add: saveProject_def)
  next
    case False
    with Cons.prems have pin: "p \<in> set db" and ne: "p_id d \<noteq> p_id p1" by auto
    from Cons.IH[OF _ pin Cons.prems(3)] Cons.prems(1)
    have "mset (saveProject p1 db) = add_mset p1 (mset db - {#p#})" by simp
    with ne pin show ?thesis by (simp add: saveProject_def)
  qed
qed

lemma mset_updateMany:
  "mset (updateMany F u db) = image_mset (\<lambda>d. if F d then u d else d) (mset db)"
  by (simp add: updateMany_def)

lemma members_add:
  assumes dist: "distinct (map p_id db)" and pin: "p \<in> set db" and pq: "p_queueId p = None"
    and F: "\<And>d. F d \<Longrightarrow> p_queueId d = Some qi"
    and p1: "p_id p1 = p_id p" "p_queueId p1 = Some qi"
  shows "mset (members qi (saveProject p1 (updateMany F (incPosition k) db)))
         = add_mset p1 (image_mset (\<lambda>d. if F d then incPosition k d else d) (mset (members qi db)))"
proof -
  let ?g = "\<lambda>d. if F d then incPosition k d else d"
  let ?db1 = "updateMany F (incPosition k) db"
  have nF: "\<not> F p" using F pq by auto
  have pin1: "p \<in> set ?db1" using pin nF by (force simp: updateMany_def)
  have d1: "distinct (map p_id ?db1)" using dist by (simp add: ids_updateMany_inc)
  have A: "mset (saveProject p1 ?db1) = add_mset p1 (image_mset ?g (mset db) - {#p#})"
    using mset_saveProject[OF d1 pin1 p1(1)] by (simp only: mset_updateMany)
  have gq: "\<And>d. p_queueId (?g d) = p_queueId d" by (simp add: incPosition_def)
  have "mset (members qi (saveProject p1 ?db1))
      = filter_mset (\<lambda>d. p_queueId d = Some qi) (mset (saveProject p1 ?db1))"
    by (simp add: members_def)
  also have "\<dots> = filter_mset (\<lambda>d. p_queueId d = Some qi) (add_mset p1 (image_mset ?g (mset db) - {#p#}))"
    by (simp only: A)
  also have "\<dots> = add_mset p1 (filter_mset (\<lambda>d. p_queueId d = Some qi) (image_mset ?g (mset db)))"
    using pq p1(2) by (simp add: filter_diff_mset)
  also have "filter_mset (\<lambda>d. p_queueId d = Some qi) (image_mset ?g (mset db))
      = image_mset ?g (filter_mset (\<lambda>d. p_queueId (?g d) = Some qi) (mset db))"
    by (rule image_mset_filter_mset_swap[symmetric])
  also have "filter_mset (\<lambda>d. p_queueId (?g d) = Some qi) (mset db) = mset (members qi db)"
    by (simp add: members_def gq)
  finally show ?thesis .
qed

lemma posOK_insert:
  assumes ok: "posOK ms" and k: "k \<le> length ms"
    and p1: "p_queuePosition p1 = Some (int k + 1)" "p_status p1 = P_queued"
  shows "posOK (take k ms @ p1 # map (incPosition 1) (drop k ms))"
  unfolding posOK_def
proof (intro allI impI)
  fix i
  let ?ms' = "take k ms @ p1 # map (incPosition 1) (drop k ms)"
  assume i: "i < length ?ms'"
  consider "i < k" | "i = k" | "i > k" by linarith
  then show "p_queuePosition (?ms' ! i) = Some (int i + 1) \<and> p_status (?ms' ! i) = P_queued"
  proof cases
    case 1
    then have "?ms' ! i = ms ! i" using k by (simp add: nth_append)
    with ok 1 k show ?thesis by (simp add: posOK_def)
  next
    case 2
    then have "?ms' ! i = p1" using k by (simp add: nth_append)
    with p1 2 show ?thesis by simp
  next
    case 3
    then obtain j where j: "i = k + Suc j" by (metis less_imp_Suc_add add_Suc_right)
    with i k have jl: "k + j < length ms" by simp
    have "?ms' ! i = incPosition 1 (ms ! (k + j))"
      using j jl k by (simp add: nth_append)
    with ok jl j show ?thesis by (simp add: posOK_def incPosition_def)
  qed
qed

lemma posOK_remove:
  assumes ok: "posOK ms" and j: "j < length ms"
  shows "posOK (take j ms @ map (incPosition (- 1)) (drop (Suc j) ms))"
  unfolding posOK_def
proof (intro allI impI)
  fix i
  let ?ms' = "take j ms @ map (incPosition (- 1)) (drop (Suc j) ms)"
  assume i: "i < length ?ms'"
  show "p_queuePosition (?ms' ! i) = Some (int i + 1) \<and> p_status (?ms' ! i) = P_queued"
  proof (cases "i < j")
    case True
    then have "?ms' ! i = ms ! i" using j by (simp add: nth_append)
    with ok True j show ?thesis by (simp add: posOK_def)
  next
    case False
    then obtain m where m: "i = j + m" by (metis le_add_diff_inverse not_less)
    with i j have ml: "Suc (j + m) < length ms" by simp
    have "?ms' ! i = incPosition (- 1) (ms ! (Suc (j + m)))"
      using m ml j by (simp add: nth_append)
    with ok ml m show ?thesis by (simp add: posOK_def incPosition_def)
  qed
qed

lemma enumerates_add:
  assumes dist: "distinct (map p_id db)" and en: "enumerates q db ms"
    and pin: "p \<in> set db" and pq: "p_queueId p = None"
    and F: "\<And>d. F d \<Longrightarrow> p_queueId d = Some (q_id q)"
    and k: "k \<le> length ms"
    and lo: "\<And>d. d \<in> set (take k ms) \<Longrightarrow> \<not> F d"
    and hi: "\<And>d. d \<in> set (drop k ms) \<Longrightarrow> F d"
    and p1: "p1 = p\<lparr>p_queueId := Some (q_id q), p_queuePosition := Some (int k + 1),
                     p_status := P_queued\<rparr>"
    and srt: "q_type q \<in> {Q_priority, Q_weighted} \<Longrightarrow>
                (\<forall>d \<in> set (take k ms). p_priority d \<ge> p_priority p)
                \<and> (\<forall>d \<in> set (drop k ms). p_priority p \<ge> p_priority d)"
  shows "enumerates (q\<lparr>q_currentSize := q_currentSize q + 1\<rparr>)
           (saveProject p1 (updateMany F (incPosition 1) db))
           (take k ms @ p1 # map (incPosition 1) (drop k ms))"
proof -
  let ?g = "\<lambda>d. if F d then incPosition 1 d else d"
  let ?ms' = "take k ms @ p1 # map (incPosition 1) (drop k ms)"
  have "map ?g ms = map ?g (take k ms) @ map ?g (drop k ms)"
    by (metis append_take_drop_id map_append)
  moreover have "map ?g (take k ms) = take k ms" using lo by (simp add: map_idI)
  moreover have "map ?g (drop k ms) = map (incPosition 1) (drop k ms)" using hi by simp
  ultimately have mg: "map ?g ms = take k ms @ map (incPosition 1) (drop k ms)" by simp
  have "mset (members (q_id q) (saveProject p1 (updateMany F (incPosition 1) db)))
        = add_mset p1 (image_mset ?g (mset (members (q_id q) db)))"
    by (rule members_add[OF dist pin pq F]) (simp_all add: p1)
  also have "image_mset ?g (mset (members (q_id q) db)) = mset (map ?g ms)"
    using en by (simp add: enumerates_def)
  finally have m: "mset ?ms' = mset (members (q_id q) (saveProject p1 (updateMany F (incPosition 1) db)))"
    by (simp add: mg)
  have sz: "q_currentSize q + 1 = int (length ?ms')"
    using en k by (simp add: enumerates_def)
  have pos: "posOK ?ms'"
    using en k by (intro posOK_insert) (simp_all add: enumerates_def p1)
  have bp: "byPriority ?ms'" if t: "q_type q \<in> {Q_priority, Q_weighted}"
  proof -
    from en t have s: "sorted_wrt (\<lambda>a b. p_priority a \<ge> p_priority b) ms"
      by (auto simp: enumerates_def byPriority_def)
    then have s1: "sorted_wrt (\<lambda>a b. p_priority a \<ge> p_priority b) (take k ms)"
      and s2: "sorted_wrt (\<lambda>a b. p_priority a \<ge> p_priority b) (drop k ms)"
      by (simp_all add: sorted_wrt_take sorted_wrt_drop)
    have s12: "\<forall>x \<in> set (take k ms). \<forall>y \<in> set (drop k ms). p_priority x \<ge> p_priority y"
      using s by (metis append_take_drop_id sorted_wrt_append)
    have pr1: "p_priority p1 = p_priority p" by (simp add: p1)
    have inc: "\<And>d. p_priority (incPosition 1 d) = p_priority d" by (simp add: incPosition_def)
    show ?thesis
      unfolding byPriority_def
      using s1 s2 s12 srt[OF t]
      by (auto simp: sorted_wrt_append sorted_wrt_map pr1 inc)
  qed
  show ?thesis
    unfolding enumerates_def using m sz pos bp by simp
qed

lemma sorted_filter_take:
  fixes f :: "'a \<Rightarrow> int"
  shows "sorted_wrt (\<lambda>a b. f a \<ge> f b) xs \<Longrightarrow>
    take (length (filter (\<lambda>d. f d > x) xs)) xs = filter (\<lambda>d. f d > x) xs"
proof (induction xs)
  case Nil
  then show ?case by simp
next
  case (Cons a xs)
  show ?case
  proof (cases "f a > x")
    case True
    with Cons show ?thesis by simp
  next
    case False
    with Cons.prems have "\<forall>d \<in> set xs. \<not> f d > x" by auto
    then have "filter (\<lambda>d. f d > x) xs = []" by (simp add: filter_empty_conv)
    with False show ?thesis by simp
  qed
qed

lemma sorted_drop_le:
  fixes f :: "'a \<Rightarrow> int"
  shows "sorted_wrt (\<lambda>a b. f a \<ge> f b) xs \<Longrightarrow>
    d \<in> set (drop (length (filter (\<lambda>d. f d > x) xs)) xs) \<Longrightarrow> f d \<le> x"
proof (induction xs)
  case Nil
  then show ?case by simp
next
  case (Cons a xs)
  show ?case
  proof (cases "f a > x")
    case True
    with Cons show ?thesis by simp
  next
    case False
    with Cons.prems have "\<forall>d \<in> set (a # xs). \<not> f d > x" by auto
    moreover from Cons.prems(2) have "d \<in> set (a # xs)" by (meson in_set_dropD)
    ultimately show ?thesis by auto
  qed
qed

lemma posOK_status: "posOK ms \<Longrightarrow> d \<in> set ms \<Longrightarrow> p_status d = P_queued"
  by (auto simp: posOK_def in_set_conv_nth)

lemma posOK_position: "posOK ms \<Longrightarrow> d \<in> set ms \<Longrightarrow> \<exists>n\<ge>1. p_queuePosition d = Some n"
  by (auto simp: posOK_def in_set_conv_nth)

lemma enumerates_member:
  "enumerates q db ms \<Longrightarrow> d \<in> set ms \<Longrightarrow> p_queueId d = Some (q_id q) \<and> d \<in> set db"
proof -
  assume "enumerates q db ms" and d: "d \<in> set ms"
  then have "set ms = set (members (q_id q) db)" by (metis enumerates_def mset_eq_setD)
  with d show ?thesis by (simp add: members_def)
qed

lemma count_higher:
  assumes en: "enumerates q db ms"
  shows "countDocuments (\<lambda>d. p_queueId d = Some (q_id q) \<and> p_priority d > x
            \<and> p_status d = P_queued) db
         = int (length (filter (\<lambda>d. p_priority d > x) ms))"
proof -
  let ?A = "\<lambda>d. p_priority d > x \<and> p_status d = P_queued"
  have "filter (\<lambda>d. p_queueId d = Some (q_id q) \<and> ?A d) db = filter ?A (members (q_id q) db)"
    by (simp add: members_def conj_commute)
  then have "length (filter (\<lambda>d. p_queueId d = Some (q_id q) \<and> ?A d) db)
      = size (filter_mset ?A (mset (members (q_id q) db)))"
    by (metis mset_filter size_mset)
  also have "\<dots> = size (filter_mset ?A (mset ms))" using en by (simp add: enumerates_def)
  also have "\<dots> = length (filter ?A ms)" by (metis mset_filter size_mset)
  also have "filter ?A ms = filter (\<lambda>d. p_priority d > x) ms"
    using en by (intro filter_cong) (auto simp: enumerates_def dest: posOK_status)
  finally show ?thesis by (simp add: countDocuments_def)
qed

lemma updateMany_none: "updateMany (\<lambda>d. False) u db = db"
  by (simp add: updateMany_def)

lemma addProject_enumerates:
  assumes dist: "distinct (map p_id db)" and en: "enumerates q db ms"
    and pin: "p \<in> set db" and pq: "p_queueId p = None"
    and add: "addProject q p db = Inr (pos, q1, p1, db1)"
  shows "\<exists>ms'. enumerates q1 db1 ms'"
proof -
  from add have acc: "canAcceptProject q p = None"
    by (auto simp: addProject_def split: option.splits)
  let ?N = "length ms"
  have sz: "q_currentSize q = int ?N" using en by (simp add: enumerates_def)
  have q1: "q1 = q\<lparr>q_currentSize := q_currentSize q + 1\<rparr>"
    using add acc by (auto simp: addProject_def Let_def split: prod.splits)
  define pr where "pr = (q_type q = Q_priority \<or> q_type q = Q_weighted)"
  consider (append) "q_type q \<noteq> Q_lifo" "\<not> pr" | (lifo) "q_type q = Q_lifo" | (prio) pr
    by blast
  then show ?thesis
  proof cases
    case append
    have r: "p1 = p\<lparr>p_queueId := Some (q_id q), p_queuePosition := Some (int ?N + 1),
                      p_status := P_queued\<rparr>" "db1 = saveProject p1 db"
      using add acc append sz unfolding pr_def
      by (cases "q_type q"; auto simp: addProject_def Let_def)+
    have "enumerates (q\<lparr>q_currentSize := q_currentSize q + 1\<rparr>)
           (saveProject p1 (updateMany (\<lambda>d. False) (incPosition 1) db))
           (take ?N ms @ p1 # map (incPosition 1) (drop ?N ms))"
      using append unfolding pr_def
      by (intro enumerates_add[OF dist en pin pq _ _ _ _ r(1)]) auto
    then show ?thesis using q1 r(2) by (auto simp: updateMany_none)
  next
    case lifo
    let ?F = "\<lambda>d. p_queueId d = Some (q_id q) \<and> pos_gte 1 d"
    have r: "p1 = p\<lparr>p_queueId := Some (q_id q), p_queuePosition := Some (int 0 + 1),
                      p_status := P_queued\<rparr>"
        "db1 = saveProject p1 (updateMany ?F (incPosition 1) db)"
      using add acc lifo by (auto simp: addProject_def Let_def)
    have hi: "?F d" if "d \<in> set (drop 0 ms)" for d
      using that en enumerates_member[OF en, of d] posOK_position[of ms d]
      by (auto simp: enumerates_def pos_gte_def)
    have "enumerates (q\<lparr>q_currentSize := q_currentSize q + 1\<rparr>)
           (saveProject p1 (updateMany ?F (incPosition 1) db))
           (take 0 ms @ p1 # map (incPosition 1) (drop 0 ms))"
      using lifo hi
      by (intro enumerates_add[OF dist en pin pq _ _ _ _ r(1)]) auto
    then show ?thesis using q1 r(2) by auto
  next
    case prio
    define k where "k = length (filter (\<lambda>d. p_priority d > p_priority p) ms)"
    let ?F = "\<lambda>d. p_queueId d = Some (q_id q) \<and> p_priority d \<le> p_priority p
                \<and> pos_gte (int k + 1) d"
    have cnt: "countDocuments (\<lambda>d. p_queueId d = Some (q_id q) \<and> p_priority d > p_priority p
            \<and> p_status d = P_queued) db = int k"
      unfolding k_def by (rule count_higher[OF en])
    have r: "p1 = p\<lparr>p_queueId := Some (q_id q), p_queuePosition := Some (int k + 1),
                      p_status := P_queued\<rparr>"
        "db1 = saveProject p1 (updateMany ?F (incPosition 1) db)"
      using add acc prio cnt unfolding pr_def
      by (auto simp: addProject_def Let_def)
    from en prio have s: "sorted_wrt (\<lambda>a b. p_priority a \<ge> p_priority b) ms"
      unfolding pr_def by (auto simp: enumerates_def byPriority_def)
    have kl: "k \<le> length ms" unfolding k_def by simp
    have tk: "take k ms = filter (\<lambda>d. p_priority d > p_priority p) ms"
      unfolding k_def by (rule sorted_filter_take[OF s])
    have lo: "p_priority d > p_priority p" if "d \<in> set (take k ms)" for d
      using that tk by simp
    have dr: "p_priority d \<le> p_priority p" if "d \<in> set (drop k ms)" for d
      using that sorted_drop_le[OF s] unfolding k_def by blast
    have hi: "?F d" if d: "d \<in> set (drop k ms)" for d
    proof -
      from d obtain i where i: "i < length ms - k" "d = ms ! (k + i)"
        by (auto simp: in_set_conv_nth)
      with en have "p_queuePosition d = Some (int (k + i) + 1)"
        by (simp add: enumerates_def posOK_def)
      moreover have "d \<in> set ms" using d by (meson in_set_dropD)
      ultimately show ?thesis
        using dr[OF d] enumerates_member[OF en] by (simp add: pos_gte_def)
    qed
    have "enumerates (q\<lparr>q_currentSize := q_currentSize q + 1\<rparr>)
           (saveProject p1 (updateMany ?F (incPosition 1) db))
           (take k ms @ p1 # map (incPosition 1) (drop k ms))"
    proof (rule enumerates_add[OF dist en pin pq _ kl _ _ r(1)])
      show "\<And>d. ?F d \<Longrightarrow> p_queueId d = Some (q_id q)" by simp
      show "\<And>d. d \<in> set (take k ms) \<Longrightarrow> \<not> ?F d" using lo by fastforce
      show "\<And>d. d \<in> set (drop k ms) \<Longrightarrow> ?F d" using hi by blast
      show "(\<forall>d\<in>set (take k ms). p_priority p \<le> p_priority d) \<and>
            (\<forall>d\<in>set (drop k ms). p_priority d \<le> p_priority p)"
        using lo dr by fastforce
    qed
    then show ?thesis using q1 r(2) by auto
  qed
qed

lemma members_remove:
  assumes dist: "distinct (map p_id db)" and pin: "p \<in> set db" and pq: "p_queueId p = Some qi"
    and F: "\<And>d. F d \<Longrightarrow> p_queueId d = Some qi" and nF: "\<not> F p"
    and p1: "p_id p1 = p_id p" "p_queueId p1 = None"
  shows "mset (members qi (saveProject p1 (updateMany F (incPosition k) db)))
         = image_mset (\<lambda>d. if F d then incPosition k d else d) (mset (members qi db) - {#p#})"
proof -
  let ?g = "\<lambda>d. if F d then incPosition k d else d"
  let ?db1 = "updateMany F (incPosition k) db"
  let ?inq = "\<lambda>d. p_queueId d = Some qi"
  have pin1: "p \<in> set ?db1" using pin nF by (force simp: updateMany_def)
  have d1: "distinct (map p_id ?db1)" using dist by (simp add: ids_updateMany_inc)
  have A: "mset (saveProject p1 ?db1) = add_mset p1 (image_mset ?g (mset db) - {#p#})"
    using mset_saveProject[OF d1 pin1 p1(1)] by (simp only: mset_updateMany)
  have gq: "\<And>d. p_queueId (?g d) = p_queueId d" by (simp add: incPosition_def)
  have pm: "p \<in># mset (members qi db)" using pin pq by (simp add: members_def)
  have "mset (members qi (saveProject p1 ?db1)) = filter_mset ?inq (mset (saveProject p1 ?db1))"
    by (simp add: members_def)
  also have "\<dots> = filter_mset ?inq (add_mset p1 (image_mset ?g (mset db) - {#p#}))"
    by (simp only: A)
  also have "\<dots> = filter_mset ?inq (image_mset ?g (mset db)) - {#p#}"
    using pq p1(2) by (simp add: filter_diff_mset)
  also have "filter_mset ?inq (image_mset ?g (mset db))
      = image_mset ?g (filter_mset (\<lambda>d. p_queueId (?g d) = Some qi) (mset db))"
    by (rule image_mset_filter_mset_swap[symmetric])
  also have "filter_mset (\<lambda>d. p_queueId (?g d) = Some qi) (mset db) = mset (members qi db)"
    by (simp add: members_def gq)
  also have "image_mset ?g (mset (members qi db)) - {#p#}
      = image_mset ?g (mset (members qi db) - {#p#})"
    using pm nF by (simp add: image_mset_Diff)
  finally show ?thesis .
qed

lemma removeProject_enumerates:
  assumes dist: "distinct (map p_id db)" and en: "enumerates q db ms"
    and pin: "p \<in> set db"
    and rem: "removeProject q p db = Inr (q1, p1, db1)"
  shows "\<exists>ms'. enumerates q1 db1 ms'"
proof -
  let ?F = "\<lambda>d. p_queueId d = Some (q_id q) \<and> pos_gt (p_queuePosition p) d"
  let ?g = "\<lambda>d. if ?F d then incPosition (- 1) d else d"
  from rem have pq: "p_queueId p = Some (q_id q)"
    by (auto simp: removeProject_def split: option.splits if_splits)
  with rem have r: "q1 = q\<lparr>q_currentSize := max 0 (q_currentSize q - 1)\<rparr>"
      "p1 = p\<lparr>p_queueId := None, p_queuePosition := None\<rparr>"
      "db1 = saveProject p1 (updateMany ?F (incPosition (- 1)) db)"
    by (auto simp: removeProject_def Let_def)
  have "p \<in> set (members (q_id q) db)" using pin pq by (simp add: members_def)
  then have "p \<in> set ms" using en by (metis enumerates_def mset_eq_setD)
  then obtain j where j: "j < length ms" "ms ! j = p" by (auto simp: in_set_conv_nth)
  have ok: "posOK ms" using en by (simp add: enumerates_def)
  then have pp: "p_queuePosition p = Some (int j + 1)" using j by (auto simp: posOK_def)
  have nF: "\<not> ?F p" using pp by (simp add: pos_gt_def)
  let ?ms' = "take j ms @ map (incPosition (- 1)) (drop (Suc j) ms)"
  have split: "ms = take j ms @ p # drop (Suc j) ms"
    using j by (metis id_take_nth_drop)
  have lo: "\<not> ?F d" if "d \<in> set (take j ms)" for d
  proof -
    from that j obtain i where "i < j" "d = ms ! i" by (auto simp: in_set_conv_nth)
    with ok j have "p_queuePosition d = Some (int i + 1)" by (simp add: posOK_def)
    with \<open>i < j\<close> pp show ?thesis by (simp add: pos_gt_def)
  qed
  have hi: "?F d" if d: "d \<in> set (drop (Suc j) ms)" for d
  proof -
    from d obtain i where i: "i < length ms - Suc j" "d = ms ! (Suc j + i)"
      by (auto simp: in_set_conv_nth)
    with ok have "p_queuePosition d = Some (int (Suc j + i) + 1)" by (simp add: posOK_def)
    moreover have "d \<in> set ms" using d by (meson in_set_dropD)
    ultimately show ?thesis using pp enumerates_member[OF en] by (simp add: pos_gt_def)
  qed
  have "mset ms - {#p#} = mset (take j ms @ drop (Suc j) ms)"
    by (subst split) simp
  then have "image_mset ?g (mset ms - {#p#}) = mset (map ?g (take j ms) @ map ?g (drop (Suc j) ms))"
    by simp
  moreover have "map ?g (take j ms) = take j ms"
    by (rule map_idI) (use lo in auto)
  moreover have "map ?g (drop (Suc j) ms) = map (incPosition (- 1)) (drop (Suc j) ms)"
    by (rule map_cong[OF refl]) (use hi in auto)
  ultimately have img: "image_mset ?g (mset ms - {#p#}) = mset ?ms'" by simp
  have "mset (members (q_id q) db1) = image_mset ?g (mset (members (q_id q) db) - {#p#})"
    unfolding r(3)
    by (rule members_remove[where F = ?F, OF dist pin pq _ nF]) (simp_all add: r(2))
  then have m: "mset ?ms' = mset (members (q_id q1) db1)"
    using en img by (simp add: enumerates_def r(1))
  have sz: "q_currentSize q1 = int (length ?ms')"
    using en j by (auto simp: enumerates_def r(1))
  have pos: "posOK ?ms'" by (rule posOK_remove[OF ok j(1)])
  have bp: "byPriority ?ms'" if t: "q_type q \<in> {Q_priority, Q_weighted}"
  proof -
    from en t have s: "sorted_wrt (\<lambda>a b. p_priority a \<ge> p_priority b) ms"
      by (auto simp: enumerates_def byPriority_def)
    then have s1: "sorted_wrt (\<lambda>a b. p_priority a \<ge> p_priority b) (take j ms)"
      and s2: "sorted_wrt (\<lambda>a b. p_priority a \<ge> p_priority b) (drop (Suc j) ms)"
      by (simp_all add: sorted_wrt_take sorted_wrt_drop)
    have s12: "\<forall>x \<in> set (take j ms). \<forall>y \<in> set (drop (Suc j) ms). p_priority x \<ge> p_priority y"
      using s by (subst (asm) split) (auto simp: sorted_wrt_append)
    have inc: "\<And>d. p_priority (incPosition (- 1) d) = p_priority d" by (simp add: incPosition_def)
    show ?thesis
      unfolding byPriority_def using s1 s2 s12
      by (auto simp: sorted_wrt_append sorted_wrt_map inc)
  qed
  have "enumerates q1 db1 ?ms'"
    unfolding enumerates_def using m sz pos bp by (simp add: r(1))
  then show ?thesis ..
qed

lemma queueStep_inv:
  assumes inv: "queueInv q db" and st: "queueStep (q, db) r = (q1, db1)"
  shows "queueInv q1 db1 \<and> q_id q1 = q_id q"
proof -
  from inv obtain ms where dist: "distinct (map p_id db)" and en: "enumerates q db ms"
    by (auto simp: queueInv_def)
  show ?thesis
  proof (cases r)
    case (AddRequest i)
    show ?thesis
    proof (cases "findProjectById i db")
      case None
      with AddRequest st inv show ?thesis by simp
    next
      case (Some p)
      then have pin: "p \<in> set db" by (simp add: findProjectById_Some)
      show ?thesis
      proof (cases "p_queueId p = None")
        case False
        with Some AddRequest st inv show ?thesis by auto
      next
        case True
        show ?thesis
        proof (cases "addProject q p db")
          case (Inl e)
          with True Some AddRequest st inv show ?thesis by simp
        next
          case (Inr res)
          then obtain pos p1 where add: "addProject q p db = Inr (pos, q1, p1, db1)"
            using True Some AddRequest st by (cases res) auto
          from addProject_enumerates[OF dist en pin True add]
          obtain ms' where "enumerates q1 db1 ms'" ..
          moreover have "map p_id db1 = map p_id db \<and> q_id q1 = q_id q"
            using add
            by (auto simp: addProject_def Let_def ids_saveProject ids_updateMany_inc
                split: option.splits queue_type.splits)
          ultimately show ?thesis using dist by (auto simp: queueInv_def)
        qed
      qed
    qed
  next
    case (RemoveRequest i)
    show ?thesis
    proof (cases "findProjectById i db")
      case None
      with RemoveRequest st inv show ?thesis by simp
    next
      case (Some p)
      then have pin: "p \<in> set db" by (simp add: findProjectById_Some)
      show ?thesis
      proof (cases "removeProject q p db")
        case (Inl e)
        with Some RemoveRequest st inv show ?thesis by simp
      next
        case (Inr res)
        then obtain p1 where rem: "removeProject q p db = Inr (q1, p1, db1)"
          using Some RemoveRequest st by (cases res) auto
        from removeProject_enumerates[OF dist en pin rem]
        obtain ms' where "enumerates q1 db1 ms'" ..
        moreover have "map p_id db1 = map p_id db \<and> q_id q1 = q_id q"
          using rem
          by (auto simp: removeProject_def Let_def ids_saveProject ids_updateMany_inc
              split: option.splits if_splits)
        ultimately show ?thesis using dist by (auto simp: queueInv_def)
      qed
    qed
  qed
qed

lemma queueRun_inv:
  "queueInv q db \<Longrightarrow> queueRun (q, db) rs = (q1, db1) \<Longrightarrow> queueInv q1 db1 \<and> q_id q1 = q_id q"
proof (induction rs arbitrary: q db)
  case Nil
  then show ?case by (simp add: queueRun_def)
next
  case (Cons r rs)
  obtain q2 db2 where st: "queueStep (q, db) r = (q2, db2)" by (cases "queueStep (q, db) r")
  with Cons.prems(2) have run: "queueRun (q2, db2) rs = (q1, db1)" by (simp add: queueRun_def)
  from queueStep_inv[OF Cons.prems(1) st] Cons.IH[OF _ run] show ?case by simp
qed

lemma queueInv_initial:
  assumes "distinct (map p_id db)" and "\<forall>d \<in> set db. p_queueId d \<noteq> Some (q_id q)"
    and "q_currentSize q = 0"
  shows "queueInv q db"
proof -
  have "members (q_id q) db = []" using assms(2) by (simp add: members_def filter_empty_conv)
  then have "enumerates q db []" using assms(3)
    by (simp add: enumerates_def posOK_def byPriority_def)
  with assms(1) show ?thesis by (auto simp: queueInv_def)
qed

lemma upto_image: "(\<lambda>i. int i + 1) ` {0..<n} = {1..int n}"
proof (intro equalityI subsetI)
  fix x assume "x \<in> (\<lambda>i. int i + 1) ` {0..<n}"
  then show "x \<in> {1..int n}" by auto
next
  fix x assume x: "x \<in> {1..int n}"
  then have "nat (x - 1) \<in> {0..<n}" and "x = int (nat (x - 1)) + 1" by auto
  then show "x \<in> (\<lambda>i. int i + 1) ` {0..<n}" by (rule rev_image_eqI)
qed

lemma queueInv_positions:
  assumes "queueInv q db"
  shows "set (queuePositions (q_id q) db) = Some ` {1..q_currentSize q}
         \<and> distinct (queuePositions (q_id q) db)"
proof -
  from assms obtain ms where en: "enumerates q db ms" by (auto simp: queueInv_def)
  let ?N = "length ms"
  let ?f = "\<lambda>i. Some (int i + 1)"
  have mp: "map p_queuePosition ms = map ?f [0..<?N]"
    using en by (intro nth_equalityI) (simp_all add: enumerates_def posOK_def)
  have "mset (queuePositions (q_id q) db) = image_mset p_queuePosition (mset (members (q_id q) db))"
    by (simp add: queuePositions_def members_def)
  also have "\<dots> = mset (map p_queuePosition ms)" using en by (simp add: enumerates_def)
  finally have ms: "mset (queuePositions (q_id q) db) = mset (map ?f [0..<?N])"
    by (simp only: mp)
  have "set (map ?f [0..<?N]) = Some ` ((\<lambda>i. int i + 1) ` {0..<?N})" by (simp add: image_image)
  also have "\<dots> = Some ` {1..q_currentSize q}"
    using en by (simp only: upto_image enumerates_def)
  finally have s: "set (queuePositions (q_id q) db) = Some ` {1..q_currentSize q}"
    using mset_eq_setD[OF ms] by simp
  have "distinct (map ?f [0..<?N])" by (simp add: distinct_map inj_on_def)
  then have "distinct (queuePositions (q_id q) db)"
    using mset_eq_imp_distinct_iff[OF ms] by simp
  with s show ?thesis by simp
qed

text \<open>
  C1, as amended.  Take a queue whose size counter is 0 in a collection with distinct ids
  in which no project belongs to the queue.  After any sequence of requests, each adding a
  stored project that is in no queue (\<open>addProject\<close>) or removing a project
  (\<open>removeProject\<close>), the positions of the queue's projects are exactly the integers from
  1 to the size counter, without duplicates.  The claim as stated fails for tokens:
  cancelling a token leaves the positions of the other waiting tokens as they were.
\<close>

theorem queue_positions_contiguous:
  assumes "distinct (map p_id db0)"
    and "\<forall>d \<in> set db0. p_queueId d \<noteq> Some (q_id q0)"
    and "q_currentSize q0 = 0"
    and "queueRun (q0, db0) rs = (q, db)"
  shows "set (queuePositions (q_id q) db) = Some ` {1..q_currentSize q}
         \<and> distinct (queuePositions (q_id q) db)"
  using queueInv_positions queueRun_inv[OF queueInv_initial[OF assms(1-3)] assms(4)] by blast

text \<open>
  A priority queue in which projects 1, 2 and 3 (priorities 3, 8 and 5) are added and
  project 2 is removed again: project 3 ends at position 1 and project 1 at position 2.
\<close>

theorem queue_positions_contiguous_witness:
  "queueRun (exampleQueue Q_priority, [exampleProject 1 3, exampleProject 2 8, exampleProject 3 5])
       [AddRequest 1, AddRequest 2, AddRequest 3, RemoveRequest 2]
     = ((exampleQueue Q_priority)\<lparr>q_currentSize := 2\<rparr>,
        [queuedProject 1 3 2, (exampleProject 2 8)\<lparr>p_status := P_queued\<rparr>, queuedProject 3 5 1])
   \<and> set (queuePositions 1
        [queuedProject 1 3 2, (exampleProject 2 8)\<lparr>p_status := P_queued\<rparr>, queuedProject 3 5 1])
     = Some ` {1..2}
   \<and> distinct (queuePositions 1
        [queuedProject 1 3 2, (exampleProject 2 8)\<lparr>p_status := P_queued\<rparr>, queuedProject 3 5 1])"
proof -
  let ?start = "[exampleProject 1 3, exampleProject 2 8, exampleProject 3 5]"
  let ?db = "[queuedProject 1 3 2, (exampleProject 2 8)\<lparr>p_status := P_queued\<rparr>, queuedProject 3 5 1]"
  have run: "queueRun (exampleQueue Q_priority, ?start)
       [AddRequest 1, AddRequest 2, AddRequest 3, RemoveRequest 2]
     = ((exampleQueue Q_priority)\<lparr>q_currentSize := 2\<rparr>, ?db)"
    by code_simp
  have h1: "distinct (map p_id ?start)" by code_simp
  have h2: "\<forall>d \<in> set ?start. p_queueId d \<noteq> Some (q_id (exampleQueue Q_priority))"
    by (simp add: exampleProject_def)
  have h3: "q_currentSize (exampleQueue Q_priority) = 0" by (simp add: exampleQueue_def)
  from queue_positions_contiguous[OF h1 h2 h3 run] run show ?thesis
    by (simp add: exampleQueue_def)
qed

text \<open>
  Two tokens are issued in department 1 and get the positions 1 and 2.  After the first is
  cancelled the waiting set is the second token alone, still at position 2.
\<close>

theorem cancel_leaves_position_gap:
  "issued (issued [] 7 3) 8 8 = [exampleToken 1 ''001'' 7 1 3 1, exampleToken 2 ''002'' 8 1 8 2]
   \<and> waitingPositions 1 (snd (cancelToken (issued (issued [] 7 3) 8 8) 1)) = [(2, Some 2)]"
  by code_simp

section \<open>Active tokens of a customer\<close>






section \<open>The priority example\<close>

text \<open>
  C3, as amended.  In a queue of type \<open>priority\<close>, adding project 1 with priority 3 and then
  project 2 with priority 8 leaves project 2 at position 1 and project 1 at position 2, and
  \<open>getNextProject\<close> returns project 2.  Tokens issued with priorities 3 and 8 get the
  positions 1 and 2 in the order of issue, and \<open>callNextToken\<close> returns the second token,
  since it sorts by priority before position.
\<close>

theorem priority_example:
  "addProject (exampleQueue Q_priority) (exampleProject 1 3) [exampleProject 1 3, exampleProject 2 8]
     = Inr (1, (exampleQueue Q_priority)\<lparr>q_currentSize := 1\<rparr>, queuedProject 1 3 1,
            [queuedProject 1 3 1, exampleProject 2 8])
   \<and> addProject ((exampleQueue Q_priority)\<lparr>q_currentSize := 1\<rparr>) (exampleProject 2 8)
        [queuedProject 1 3 1, exampleProject 2 8]
     = Inr (1, (exampleQueue Q_priority)\<lparr>q_currentSize := 2\<rparr>, queuedProject 2 8 1,
            [queuedProject 1 3 2, queuedProject 2 8 1])
   \<and> getNextProject ((exampleQueue Q_priority)\<lparr>q_currentSize := 2\<rparr>)
        [queuedProject 1 3 2, queuedProject 2 8 1] = Some (queuedProject 2 8 1)
   \<and> waitingPositions 1 (issued (issued [] 7 3) 8 8) = [(1, Some 1), (2, Some 2)]
   \<and> map_option t_id (fst (callNextToken (exampleCounter None) (issued (issued [] 7 3) 8 8) exampleClock))
     = Some 2"
  by code_simp

text \<open>
  Token 1 is issued with priority 3 and token 2 with priority 8: token 2 is at position 2,
  not 1.
\<close>

theorem priority_example_tokens_counterexample:
  "waitingPositions 1 (issued (issued [] 7 3) 8 8) = [(1, Some 1), (2, Some 2)]"
  by code_simp

section \<open>Removal from a queue\<close>

lemma findProjectById_distinct:
  "distinct (map p_id db) \<Longrightarrow> d \<in> set db \<Longrightarrow> findProjectById (p_id d) db = Some d"
  by (induction db) (auto simp: findProjectById_def)

lemma findProjectById_map:
  assumes "\<And>d. p_id (f d) = p_id d"
  shows "findProjectById i (map f db) = map_option f (findProjectById i db)"
  using assms by (induction db) (auto simp: findProjectById_def)

text \<open>
  C4, as amended.  \<open>removeProject\<close> on a project at position \<open>k\<close> of a queue decrements by 1
  the position of every other project of the queue whose position is greater than \<open>k\<close>
  and leaves the other projects of the queue as they were.  Cancelling a token does not
  touch the positions of the other tokens.
\<close>

theorem removeProject_shifts_later_positions:
  assumes "distinct (map p_id db)"
    and "removeProject q p db = Inr (q1, p1, db1)"
    and "p_queuePosition p = Some k"
    and "d \<in> set db" and "p_id d \<noteq> p_id p"
    and "p_queueId d = Some (q_id q)" and "p_queuePosition d = Some n"
  shows "findProjectById (p_id d) db1
           = Some (d\<lparr>p_queuePosition := Some (if k < n then n - 1 else n)\<rparr>)"
proof -
  let ?F = "\<lambda>d. p_queueId d = Some (q_id q) \<and> pos_gt (p_queuePosition p) d"
  let ?g = "\<lambda>d. if ?F d then incPosition (- 1) d else d"
  let ?h = "\<lambda>d. if p_id d = p_id p1 then p1 else d"
  from assms(2) have pq: "p_queueId p = Some (q_id q)"
    by (auto simp: removeProject_def split: option.splits if_splits)
  with assms(2) have r: "p1 = p\<lparr>p_queueId := None, p_queuePosition := None\<rparr>"
      "db1 = map ?h (map ?g db)"
    by (auto simp: removeProject_def Let_def saveProject_def updateMany_def)
  have idg: "\<And>d. p_id (?g d) = p_id d" by (simp add: incPosition_def)
  have idh: "\<And>d. p_id (?h d) = p_id d" by simp
  have "findProjectById (p_id d) db1 = map_option ?h (map_option ?g (findProjectById (p_id d) db))"
    unfolding r(2) by (simp only: findProjectById_map[of ?h, OF idh] findProjectById_map[of ?g, OF idg])
  also have "\<dots> = Some (?h (?g d))"
    using findProjectById_distinct[OF assms(1,4)] by simp
  also have "?h (?g d) = ?g d" using assms(5) by (simp add: r(1) incPosition_def)
  also have "?g d = d\<lparr>p_queuePosition := Some (if k < n then n - 1 else n)\<rparr>"
    using assms(3,6,7) by (simp add: pos_gt_def incPosition_def)
  finally show ?thesis .
qed

text \<open>
  Projects 1, 2 and 3 at positions 1, 2 and 3: removing project 2 leaves project 1 at
  position 1 and moves project 3 to position 2.
\<close>

theorem removeProject_shifts_later_positions_witness:
  "removeProject ((exampleQueue Q_fifo)\<lparr>q_currentSize := 3\<rparr>) (queuedProject 2 5 2)
       [queuedProject 1 5 1, queuedProject 2 5 2, queuedProject 3 5 3]
     = Inr ((exampleQueue Q_fifo)\<lparr>q_currentSize := 2\<rparr>,
            (exampleProject 2 5)\<lparr>p_status := P_queued\<rparr>,
            [queuedProject 1 5 1, (exampleProject 2 5)\<lparr>p_status := P_queued\<rparr>, queuedProject 3 5 2])
   \<and> findProjectById 3
        [queuedProject 1 5 1, (exampleProject 2 5)\<lparr>p_status := P_queued\<rparr>, queuedProject 3 5 2]
     = Some (queuedProject 3 5 2)
   \<and> findProjectById 1
        [queuedProject 1 5 1, (exampleProject 2 5)\<lparr>p_status := P_queued\<rparr>, queuedProject 3 5 2]
     = Some (queuedProject 1 5 1)"
proof -
  let ?db = "[queuedProject 1 5 1, queuedProject 2 5 2, queuedProject 3 5 3]"
  let ?db1 = "[queuedProject 1 5 1, (exampleProject 2 5)\<lparr>p_status := P_queued\<rparr>, queuedProject 3 5 2]"
  have rem: "removeProject ((exampleQueue Q_fifo)\<lparr>q_currentSize := 3\<rparr>) (queuedProject 2 5 2) ?db
     = Inr ((exampleQueue Q_fifo)\<lparr>q_currentSize := 2\<rparr>,
            (exampleProject 2 5)\<lparr>p_status := P_queued\<rparr>, ?db1)"
    by code_simp
  have dist: "distinct (map p_id ?db)" by code_simp
  have c: "findProjectById (p_id (queuedProject 3 5 3)) ?db1
      = Some ((queuedProject 3 5 3)\<lparr>p_queuePosition := Some (if (2::int) < 3 then 3 - 1 else 3)\<rparr>)"
    by (rule removeProject_shifts_later_positions[OF dist rem])
       (simp_all add: queuedProject_def exampleProject_def exampleQueue_def)
  have a: "findProjectById (p_id (queuedProject 1 5 1)) ?db1
      = Some ((queuedProject 1 5 1)\<lparr>p_queuePosition := Some (if (2::int) < 1 then 1 - 1 else 1)\<rparr>)"
    by (rule removeProject_shifts_later_positions[OF dist rem])
       (simp_all add: queuedProject_def exampleProject_def exampleQueue_def)
  have c': "findProjectById 3 ?db1 = Some (queuedProject 3 5 2)"
    using c by (simp add: queuedProject_def exampleProject_def)
  have a': "findProjectById 1 ?db1 = Some (queuedProject 1 5 1)"
    using a by (simp add: queuedProject_def exampleProject_def)
  from rem a' c' show ?thesis by (intro conjI)
qed

text \<open>
  Tokens 1, 2 and 3 wait at positions 1, 2 and 3: after token 2 is cancelled, token 3 is
  still at position 3.
\<close>

theorem cancelToken_keeps_later_positions:
  "waitingPositions 1
     (snd (cancelToken [exampleToken 1 ''001'' 7 1 5 1, exampleToken 2 ''002'' 8 1 5 2,
                        exampleToken 3 ''003'' 6 1 5 3] 2))
   = [(1, Some 1), (3, Some 3)]"
  by code_simp

section \<open>Transfer\<close>

lemma preSave_same:
  "t_serviceStartedAt t = t_serviceStartedAt stored \<Longrightarrow> t_completedAt t = t_completedAt stored
   \<Longrightarrow> preSave stored t = t"
  by (simp add: preSave_def split: option.splits)

text \<open>
  C5, as amended.  Transferring a waiting token sets its department and counter to the
  targets, keeps the status \<open>waiting\<close> and appends a history entry that holds the reason,
  the user and the time, and neither the old nor the new department or counter; the token
  keeps the queue position it had in the department it left, and no other token is
  changed.
\<close>

theorem transferToken_keeps_stale_position:
  assumes "findTokenById tokenId tokens = Some t" and "t_status t = ''waiting''"
  shows "\<exists>moved.
           transferToken tokens tokenId target targetCounter reason userId at
             = (Inr moved, map (\<lambda>d. if t_id d = t_id moved then moved else d) tokens)
           \<and> t_id moved = t_id t
           \<and> t_department moved = target \<and> t_counter moved = targetCounter
           \<and> t_status moved = ''waiting''
           \<and> t_queuePosition moved = t_queuePosition t
           \<and> t_transferHistory moved = t_transferHistory t @
                 [\<lparr>tr_fromDepartment = None, tr_toDepartment = None,
                   tr_fromCounter = None, tr_toCounter = None,
                   tr_reason = reason, tr_transferredBy = userId, tr_transferredAt = at\<rparr>]"
proof -
  let ?m = "t\<lparr>t_department := target, t_counter := targetCounter, t_status := ''waiting'',
              t_transferHistory := t_transferHistory t @
                [\<lparr>tr_fromDepartment = None, tr_toDepartment = None,
                  tr_fromCounter = None, tr_toCounter = None,
                  tr_reason = reason, tr_transferredBy = userId, tr_transferredAt = at\<rparr>]\<rparr>"
  have ps: "preSave t ?m = ?m" by (rule preSave_same) simp_all
  have "transferToken tokens tokenId target targetCounter reason userId at
      = (Inr ?m, map (\<lambda>d. if t_id d = t_id ?m then ?m else d) tokens)"
    using assms ps by (simp add: transferToken_def saveToken_def Let_def)
  then show ?thesis by (intro exI[of _ ?m]) simp
qed

text \<open>
  Token 1 of department 1, waiting at position 1, is transferred to department 2: it is
  stored in place with department 2 and position 1, beside the two other tokens.
\<close>

theorem transferToken_keeps_stale_position_witness:
  "\<exists>moved.
     transferToken [exampleToken 1 ''001'' 7 1 5 1, exampleToken 2 ''002'' 8 1 5 2,
                    exampleToken 3 ''001'' 6 2 5 1] 1 2 None ''wrong desk'' 9 1733050600000
       = (Inr moved, [moved, exampleToken 2 ''002'' 8 1 5 2, exampleToken 3 ''001'' 6 2 5 1])
     \<and> t_department moved = 2 \<and> t_status moved = ''waiting'' \<and> t_queuePosition moved = Some 1
     \<and> t_transferHistory moved
         = [\<lparr>tr_fromDepartment = None, tr_toDepartment = None,
             tr_fromCounter = None, tr_toCounter = None, tr_reason = ''wrong desk'',
             tr_transferredBy = 9, tr_transferredAt = 1733050600000\<rparr>]"
proof -
  let ?ts = "[exampleToken 1 ''001'' 7 1 5 1, exampleToken 2 ''002'' 8 1 5 2,
              exampleToken 3 ''001'' 6 2 5 1]"
  have f: "findTokenById 1 ?ts = Some (exampleToken 1 ''001'' 7 1 5 1)"
    by (simp add: findTokenById_def exampleToken_def)
  have w: "t_status (exampleToken 1 ''001'' 7 1 5 1) = ''waiting''"
    by (simp add: exampleToken_def)
  from transferToken_keeps_stale_position[OF f w, of 2 None "''wrong desk''" 9 1733050600000]
  obtain moved where m:
      "transferToken ?ts 1 2 None ''wrong desk'' 9 1733050600000
         = (Inr moved, map (\<lambda>d. if t_id d = t_id moved then moved else d) ?ts)"
      "t_id moved = t_id (exampleToken 1 ''001'' 7 1 5 1)"
      "t_department moved = 2" "t_status moved = ''waiting''"
      "t_queuePosition moved = t_queuePosition (exampleToken 1 ''001'' 7 1 5 1)"
      "t_transferHistory moved = t_transferHistory (exampleToken 1 ''001'' 7 1 5 1) @
         [\<lparr>tr_fromDepartment = None, tr_toDepartment = None,
           tr_fromCounter = None, tr_toCounter = None, tr_reason = ''wrong desk'',
           tr_transferredBy = 9, tr_transferredAt = 1733050600000\<rparr>]"
    by blast
  have "map (\<lambda>d. if t_id d = t_id moved then moved else d) ?ts
      = [moved, exampleToken 2 ''002'' 8 1 5 2, exampleToken 3 ''001'' 6 2 5 1]"
    using m(2) by (simp add: exampleToken_def)
  with m show ?thesis by (intro exI[of _ moved]) (simp add: exampleToken_def)
qed

text \<open>
  After that transfer the waiting set of department 1 is token 2 at position 2, and
  department 2 has tokens 1 and 3 both at position 1.
\<close>

theorem transferToken_positions_counterexample:
  "waitingPositions 1
     (snd (transferToken [exampleToken 1 ''001'' 7 1 5 1, exampleToken 2 ''002'' 8 1 5 2,
                  exampleToken 3 ''001'' 6 2 5 1] 1 2 None ''wrong desk'' 9 1733050600000))
     = [(2, Some 2)]
   \<and> waitingPositions 2
     (snd (transferToken [exampleToken 1 ''001'' 7 1 5 1, exampleToken 2 ''002'' 8 1 5 2,
                  exampleToken 3 ''001'' 6 2 5 1] 1 2 None ''wrong desk'' 9 1733050600000))
     = [(1, Some 1), (3, Some 1)]"
  by code_simp

section \<open>Completing a token\<close>

text \<open>The pre-save hook writes \<open>waitTime\<close> and \<open>serviceTime\<close> only.\<close>

lemma preSave_fields:
  "t_id (preSave s t) = t_id t" "t_status (preSave s t) = t_status t"
  "t_completedAt (preSave s t) = t_completedAt t" "t_serviceNotes (preSave s t) = t_serviceNotes t"
  "t_satisfactionRating (preSave s t) = t_satisfactionRating t"
  "t_lastModifiedBy (preSave s t) = t_lastModifiedBy t"
  "t_notifiedCompleted (preSave s t) = t_notifiedCompleted t"
  "t_customer (preSave s t) = t_customer t" "t_businessDate (preSave s t) = t_businessDate t"
  by (simp_all add: preSave_def Let_def split: option.splits)

text \<open>
  C6, as amended.  For a stored token whose status is \<open>waiting\<close>, the request handler
  \<open>completeToken\<close> passes the error "Token is not being served" (status 400) on and writes
  nothing.  The model method \<open>completeService\<close>, which \<open>completeCurrentService\<close> of a counter
  calls, tests no status: given a rating that the schema accepts, it stores the token with
  status \<open>completed\<close>, the completion time, the notes, the rating, the user and the
  completion notice set.
\<close>

theorem complete_waiting_token:
  assumes "findTokenById tokenId tokens = Some t" and "t_status t = ''waiting''"
    and "\<forall>r. rating = Some r \<longrightarrow> 1 \<le> r \<and> r \<le> 5"
  shows "completeToken tokens tokenId at
           = (Inl (AppError ''Token is not being served'' 400), tokens)
         \<and> (\<exists>completed.
               completeService t userId notes rating at tokens
                 = Inr (completed, map (\<lambda>d. if t_id d = t_id t then completed else d) tokens)
               \<and> t_id completed = t_id t
               \<and> t_status completed = ''completed'' \<and> t_completedAt completed = Some at
               \<and> t_serviceNotes completed = notes \<and> t_satisfactionRating completed = rating
               \<and> t_lastModifiedBy completed = userId \<and> t_notifiedCompleted completed)"
proof -
  let ?t1 = "t\<lparr>t_status := ''completed'', t_completedAt := Some at, t_serviceNotes := notes,
                 t_satisfactionRating := rating, t_lastModifiedBy := userId,
                 t_notifiedCompleted := True\<rparr>"
  have h: "completeToken tokens tokenId at
           = (Inl (AppError ''Token is not being served'' 400), tokens)"
    using assms(1,2) by (simp add: completeToken_def)
  have "completeService t userId notes rating at tokens = Inr (saveToken t ?t1 tokens)"
    using assms(3) by (cases rating) (simp_all add: completeService_def Let_def)
  then have m: "completeService t userId notes rating at tokens
      = Inr (preSave t ?t1, map (\<lambda>d. if t_id d = t_id t then preSave t ?t1 else d) tokens)"
    by (simp add: saveToken_def Let_def preSave_fields)
  show ?thesis
  proof (rule conjI[OF h], rule exI[of _ "preSave t ?t1"], intro conjI)
    show "completeService t userId notes rating at tokens
      = Inr (preSave t ?t1, map (\<lambda>d. if t_id d = t_id t then preSave t ?t1 else d) tokens)"
      by (rule m)
  qed (simp_all add: preSave_fields)
qed

text \<open>
  Token 1 is waiting: the handler refuses to complete it, and \<open>completeService\<close> stores it
  as completed.
\<close>

theorem complete_waiting_token_witness:
  "completeToken [exampleToken 1 ''001'' 7 1 3 1] 1 1733050600000
     = (Inl (AppError ''Token is not being served'' 400), [exampleToken 1 ''001'' 7 1 3 1])
   \<and> (\<exists>completed.
         completeService (exampleToken 1 ''001'' 7 1 3 1) (Some 9) (Some ''done'') (Some 4)
             1733050600000 [exampleToken 1 ''001'' 7 1 3 1]
           = Inr (completed, [completed])
         \<and> t_status completed = ''completed'' \<and> t_completedAt completed = Some 1733050600000)"
proof -
  let ?a = "exampleToken 1 ''001'' 7 1 3 1"
  have f: "findTokenById 1 [?a] = Some ?a" by (simp add: findTokenById_def exampleToken_def)
  have w: "t_status ?a = ''waiting''" by (simp add: exampleToken_def)
  have r: "\<forall>r. Some (4::int) = Some r \<longrightarrow> 1 \<le> r \<and> r \<le> 5" by simp
  from complete_waiting_token[OF f w r, of 1733050600000 "Some 9" "Some ''done''"]
  obtain completed where h: "completeToken [?a] 1 1733050600000
           = (Inl (AppError ''Token is not being served'' 400), [?a])"
    and c: "completeService ?a (Some 9) (Some ''done'') (Some 4) 1733050600000 [?a]
                 = Inr (completed, map (\<lambda>d. if t_id d = t_id ?a then completed else d) [?a])"
       "t_status completed = ''completed''" "t_completedAt completed = Some 1733050600000"
    by blast
  show ?thesis
  proof (rule conjI[OF h], rule exI[of _ completed], intro conjI)
    show "completeService ?a (Some 9) (Some ''done'') (Some 4) 1733050600000 [?a]
        = Inr (completed, [completed])"
      using c(1) by simp
  qed (rule c(2), rule c(3))
qed

text \<open>
  A counter whose current token is the waiting token 1 (a called token is waiting again
  after \<open>transferToken\<close>) completes its current service: no error is raised, and token 1
  is stored as completed with a completion time.
\<close>

theorem completeCurrentService_completes_waiting_token:
  "completeCurrentService (exampleCounter (Some 1)) None None 1733050600000
       [exampleToken 1 ''001'' 7 1 3 1]
     = Inr (Some ((exampleToken 1 ''001'' 7 1 3 1)\<lparr>t_status := ''completed'',
                    t_completedAt := Some 1733050600000, t_lastModifiedBy := Some 9,
                    t_notifiedCompleted := True\<rparr>),
            (exampleCounter None)\<lparr>c_lastServiceCompletedAt := Some 1733050600000\<rparr>,
            [(exampleToken 1 ''001'' 7 1 3 1)\<lparr>t_status := ''completed'',
                    t_completedAt := Some 1733050600000, t_lastModifiedBy := Some 9,
                    t_notifiedCompleted := True\<rparr>])"
  by code_simp

section \<open>Token numbers\<close>

text \<open>
  C7.  The generator takes the greatest stored number in string order, not the highest
  suffix: with the numbers ending in 999 and 1000 stored, the last in string order is the
  one ending in 999, the generator returns the number ending in 1000 a second time, and
  \<open>generateToken\<close> fails on the unique index.
\<close>

theorem token_number_repeats_after_1000:
  "generateTokenNumber exampleDepartments
     [exampleToken 999 ''999'' 7 1 5 999, exampleToken 1000 ''1000'' 8 1 5 1000] 1 exampleClock
   = Inr (''CS-20241201-1000'', ''CS1000'')
   \<and> generateToken exampleDepartments
     [exampleToken 999 ''999'' 7 1 5 999, exampleToken 1000 ''1000'' 8 1 5 1000] 1 None 6 5 9 exampleClock
   = Inl (DuplicateKeyError ''CS-20241201-1000'')"
  by code_simp

section \<open>Calling the next token\<close>

lemma firstBy_None: "firstBy lt xs = None \<longleftrightarrow> xs = []"
  by (induction xs) (auto split: option.splits)

lemma firstBy_in_set: "firstBy lt xs = Some x \<Longrightarrow> x \<in> set xs"
  by (induction xs arbitrary: x) (auto split: option.splits if_splits)

lemma firstBy_Some: "xs \<noteq> [] \<Longrightarrow> \<exists>x \<in> set xs. firstBy lt xs = Some x"
  by (metis firstBy_None firstBy_in_set option.exhaust)

text \<open>
  The order of \<open>sort({ priority: -1, queuePosition: 1 })\<close> is asymmetric and its negation
  is transitive, so the token that \<open>firstBy\<close> returns has no token of the list before it.
\<close>

lemma firstBy_minimal:
  assumes asym: "\<And>a b. lt a b \<Longrightarrow> \<not> lt b a"
    and negtrans: "\<And>a b c. \<not> lt a b \<Longrightarrow> \<not> lt b c \<Longrightarrow> \<not> lt a c"
  shows "firstBy lt xs = Some x \<Longrightarrow> y \<in> set xs \<Longrightarrow> \<not> lt y x"
proof (induction xs arbitrary: x)
  case Nil
  then show ?case by simp
next
  case (Cons a xs)
  have irr: "\<not> lt a a" using asym by blast
  show ?case
  proof (cases "firstBy lt xs")
    case None
    then have "xs = []" by (simp add: firstBy_None)
    with Cons.prems None irr show ?thesis by simp
  next
    case (Some m)
    show ?thesis
    proof (cases "lt m a")
      case True
      with Some Cons.prems(1) have x: "x = m" by simp
      show ?thesis
      proof (cases "y = a")
        case True
        with \<open>lt m a\<close> x asym show ?thesis by blast
      next
        case False
        with Cons.prems(2) have "y \<in> set xs" by simp
        with Cons.IH[OF Some] x show ?thesis by simp
      qed
    next
      case False
      with Some Cons.prems(1) have x: "x = a" by simp
      show ?thesis
      proof (cases "y = a")
        case True
        with x irr show ?thesis by simp
      next
        case ya: False
        with Cons.prems(2) have "y \<in> set xs" by simp
        with Cons.IH[OF Some] have "\<not> lt y m" by simp
        with False negtrans x show ?thesis by blast
      qed
    qed
  qed
qed

lemma lex_asym:
  fixes p q :: int and x y :: "int option"
  shows "p > q \<or> (p = q \<and> opt_less x y) \<Longrightarrow> \<not> (q > p \<or> (q = p \<and> opt_less y x))"
  by (auto simp: opt_less_def split: option.splits)

lemma lex_negtrans:
  fixes p q r :: int and x y z :: "int option"
  shows "\<not> (p > q \<or> (p = q \<and> opt_less x y)) \<Longrightarrow> \<not> (q > r \<or> (q = r \<and> opt_less y z))
    \<Longrightarrow> \<not> (p > r \<or> (p = r \<and> opt_less x z))"
  by (auto simp: opt_less_def split: option.splits)

lemma callOrder_asym: "callOrder a b \<Longrightarrow> \<not> callOrder b a"
  unfolding callOrder_def by (rule lex_asym)

lemma callOrder_negtrans: "\<not> callOrder a b \<Longrightarrow> \<not> callOrder b c \<Longrightarrow> \<not> callOrder a c"
  unfolding callOrder_def by (rule lex_negtrans)

lemma firstBy_callOrder_minimal:
  assumes "firstBy callOrder xs = Some x" and "y \<in> set xs"
  shows "\<not> callOrder y x"
proof (rule firstBy_minimal[where lt = callOrder and xs = xs])
  show "\<And>a b. callOrder a b \<Longrightarrow> \<not> callOrder b a" by (rule callOrder_asym)
  show "\<And>a b c. \<not> callOrder a b \<Longrightarrow> \<not> callOrder b c \<Longrightarrow> \<not> callOrder a c"
    by (rule callOrder_negtrans)
  show "firstBy callOrder xs = Some x" by (rule assms(1))
  show "y \<in> set xs" by (rule assms(2))
qed

text \<open>
  C8, as amended.  \<open>callNextToken\<close> does not look at the counter's current token: for a
  counter that holds a token and whose department has a token waiting on the day of the
  request, it does not fail.  It calls a token \<open>n\<close> of the collection that is waiting in the
  counter's department with a business date on that day and that no such token precedes
  in the order of priority (highest first) and queue position: the result is \<open>n\<close> with
  status \<open>called\<close>, the call time, the counter and the operator set, stored in place of
  \<open>n\<close>, and the counter's current token is overwritten with the id of \<open>n\<close>.
\<close>

theorem callNextToken_ignores_current_token:
  assumes "c_currentToken c = Some busyWith"
    and "w \<in> set tokens" and "t_department w = c_department c" and "t_status w = ''waiting''"
    and "dayStart clk \<le> t_businessDate w" and "t_businessDate w < dayStart clk + 86399999"
  shows "\<exists>n called.
           n \<in> set tokens \<and> t_department n = c_department c \<and> t_status n = ''waiting''
           \<and> dayStart clk \<le> t_businessDate n \<and> t_businessDate n < dayStart clk + 86399999
           \<and> (\<forall>t \<in> set tokens.
                 t_department t = c_department c \<and> t_status t = ''waiting''
                 \<and> dayStart clk \<le> t_businessDate t \<and> t_businessDate t < dayStart clk + 86399999
                 \<longrightarrow> \<not> callOrder t n)
           \<and> called = n\<lparr>t_status := ''called'', t_calledAt := Some (now clk),
                          t_counter := Some (c_id c), t_lastModifiedBy := c_currentOperator c,
                          t_notifiedCalled := True\<rparr>
           \<and> callNextToken c tokens clk
               = (Some called,
                  c\<lparr>c_currentToken := Some (t_id n), c_status := C_busy,
                    c_lastTokenCalledAt := Some (now clk)\<rparr>,
                  map (\<lambda>d. if t_id d = t_id n then called else d) tokens)"
proof -
  let ?P = "\<lambda>t. t_department t = c_department c \<and> t_status t = ''waiting''
      \<and> dayStart clk \<le> t_businessDate t \<and> t_businessDate t < dayStart clk + 86399999"
  let ?el = "filter ?P tokens"
  from assms have "?el \<noteq> []" by (auto simp: filter_empty_conv)
  then obtain n where n: "n \<in> set ?el" "firstBy callOrder ?el = Some n"
    using firstBy_Some by blast
  let ?t = "n\<lparr>t_status := ''called'', t_calledAt := Some (now clk), t_counter := Some (c_id c),
          t_lastModifiedBy := c_currentOperator c, t_notifiedCalled := True\<rparr>"
  have ps: "preSave n ?t = ?t" by (rule preSave_same) simp_all
  have min: "\<not> callOrder t n" if "t \<in> set tokens" "?P t" for t
  proof -
    from that have "t \<in> set ?el" by simp
    with n(2) show ?thesis by (rule firstBy_callOrder_minimal)
  qed
  have call: "callNextToken c tokens clk
      = (Some ?t, c\<lparr>c_currentToken := Some (t_id n), c_status := C_busy,
                    c_lastTokenCalledAt := Some (now clk)\<rparr>,
         map (\<lambda>d. if t_id d = t_id n then ?t else d) tokens)"
    using n(2) ps by (simp add: callNextToken_def callToken_def saveToken_def Let_def)
  from n(1) have nin: "n \<in> set tokens" and pn: "?P n" by simp_all
  show ?thesis
  proof (rule exI[of _ n], rule exI[of _ ?t], intro conjI ballI impI)
    show "n \<in> set tokens" by (rule nin)
    show "t_department n = c_department c" "t_status n = ''waiting''"
      "dayStart clk \<le> t_businessDate n" "t_businessDate n < dayStart clk + 86399999"
      using pn by simp_all
    show "\<not> callOrder t n" if "t \<in> set tokens" "?P t" for t
      using that by (rule min)
    show "?t = ?t" by (rule refl)
    show "callNextToken c tokens clk
      = (Some ?t, c\<lparr>c_currentToken := Some (t_id n), c_status := C_busy,
                    c_lastTokenCalledAt := Some (now clk)\<rparr>,
         map (\<lambda>d. if t_id d = t_id n then ?t else d) tokens)" by (rule call)
  qed
qed

text \<open>
  A counter whose current token is 77 is asked for the next token while tokens 1
  (priority 3) and 2 (priority 8) wait: token 2 is called and becomes the current token.
\<close>

theorem callNextToken_ignores_current_token_witness:
  "callNextToken (exampleCounter (Some 77))
      [exampleToken 1 ''001'' 7 1 3 1, exampleToken 2 ''002'' 8 1 8 2] exampleClock
     = (Some ((exampleToken 2 ''002'' 8 1 8 2)\<lparr>t_status := ''called'',
               t_calledAt := Some 1733050000000, t_counter := Some 4,
               t_lastModifiedBy := Some 9, t_notifiedCalled := True\<rparr>),
        (exampleCounter (Some 2))\<lparr>c_status := C_busy, c_lastTokenCalledAt := Some 1733050000000\<rparr>,
        [exampleToken 1 ''001'' 7 1 3 1,
         (exampleToken 2 ''002'' 8 1 8 2)\<lparr>t_status := ''called'',
               t_calledAt := Some 1733050000000, t_counter := Some 4,
               t_lastModifiedBy := Some 9, t_notifiedCalled := True\<rparr>])"
proof -
  let ?a = "exampleToken 1 ''001'' 7 1 3 1"
  let ?b = "exampleToken 2 ''002'' 8 1 8 2"
  let ?c = "exampleCounter (Some 77)"
  have h: "c_currentToken ?c = Some 77" "?a \<in> set [?a, ?b]" "t_department ?a = c_department ?c"
      "t_status ?a = ''waiting''" "dayStart exampleClock \<le> t_businessDate ?a"
      "t_businessDate ?a < dayStart exampleClock + 86399999"
    by (simp_all add: exampleCounter_def exampleToken_def exampleClock_def)
  from callNextToken_ignores_current_token[OF h]
  obtain n called where n: "n \<in> set [?a, ?b]"
    and min: "\<And>t. t \<in> set [?a, ?b] \<Longrightarrow> t_department t = c_department ?c \<Longrightarrow>
        t_status t = ''waiting'' \<Longrightarrow> dayStart exampleClock \<le> t_businessDate t \<Longrightarrow>
        t_businessDate t < dayStart exampleClock + 86399999 \<Longrightarrow> \<not> callOrder t n"
    and called: "called = n\<lparr>t_status := ''called'', t_calledAt := Some (now exampleClock),
                          t_counter := Some (c_id ?c), t_lastModifiedBy := c_currentOperator ?c,
                          t_notifiedCalled := True\<rparr>"
    and call: "callNextToken ?c [?a, ?b] exampleClock
               = (Some called,
                  ?c\<lparr>c_currentToken := Some (t_id n), c_status := C_busy,
                    c_lastTokenCalledAt := Some (now exampleClock)\<rparr>,
                  map (\<lambda>d. if t_id d = t_id n then called else d) [?a, ?b])"
    by blast
  have "\<not> callOrder ?b n"
    by (rule min) (simp_all add: exampleCounter_def exampleToken_def exampleClock_def)
  moreover have "callOrder ?b ?a" by (simp add: callOrder_def exampleToken_def)
  ultimately have "n \<noteq> ?a" by blast
  with n have nb: "n = ?b" by simp
  show ?thesis
    unfolding call called nb
    by (simp add: exampleCounter_def exampleToken_def exampleClock_def)
qed

text \<open>
  A counter whose current token is 77 is asked for the next token while token 1 waits:
  the call does not fail, token 1 comes back called, and the counter's current token is 1.
\<close>

theorem callNextToken_busy_counterexample:
  "callNextToken (exampleCounter (Some 77)) [exampleToken 1 ''001'' 7 1 3 1] exampleClock
     = (Some ((exampleToken 1 ''001'' 7 1 3 1)\<lparr>t_status := ''called'',
               t_calledAt := Some 1733050000000, t_counter := Some 4,
               t_lastModifiedBy := Some 9, t_notifiedCalled := True\<rparr>),
        (exampleCounter (Some 1))\<lparr>c_status := C_busy, c_lastTokenCalledAt := Some 1733050000000\<rparr>,
        [(exampleToken 1 ''001'' 7 1 3 1)\<lparr>t_status := ''called'',
               t_calledAt := Some 1733050000000, t_counter := Some 4,
               t_lastModifiedBy := Some 9, t_notifiedCalled := True\<rparr>])"
  by code_simp

text \<open>
  C10.  When no token of the counter's department is waiting with a business date on the
  day of the request, \<open>callNextToken\<close> returns \<open>null\<close>, and the counter and the tokens are
  unchanged.
\<close>

theorem callNextToken_nothing_waiting:
  assumes "\<forall>t \<in> set tokens. \<not> (t_department t = c_department c \<and> t_status t = ''waiting''
              \<and> dayStart clk \<le> t_businessDate t \<and> t_businessDate t < dayStart clk + 86399999)"
  shows "callNextToken c tokens clk = (None, c, tokens)"
proof -
  from assms have "filter (\<lambda>t. t_department t = c_department c \<and> t_status t = ''waiting''
      \<and> dayStart clk \<le> t_businessDate t \<and> t_businessDate t < dayStart clk + 86399999) tokens = []"
    by (simp add: filter_empty_conv)
  then show ?thesis by (simp add: callNextToken_def)
qed

theorem callNextToken_nothing_waiting_witness:
  "callNextToken (exampleCounter (Some 1))
     [(exampleToken 1 ''001'' 7 1 3 1)\<lparr>t_status := ''called''\<rparr>, exampleToken 2 ''001'' 8 2 5 1]
     exampleClock
   = (None, exampleCounter (Some 1),
      [(exampleToken 1 ''001'' 7 1 3 1)\<lparr>t_status := ''called''\<rparr>, exampleToken 2 ''001'' 8 2 5 1])"
  by (rule callNextToken_nothing_waiting) (simp add: exampleToken_def exampleCounter_def)

section \<open>Reordering a queue\<close>

lemma updateOne_ids:
  "(\<And>d. p_id (u d) = p_id d) \<Longrightarrow> map p_id (updateOne F u db) = map p_id db"
  by (induction db) auto

lemma updateOne_length: "length (updateOne F u db) = length db"
  by (induction db) auto

lemma updateOne_nth_other:
  "i < length db \<Longrightarrow> \<not> F (db ! i) \<Longrightarrow> updateOne F u db ! i = db ! i"
proof (induction db arbitrary: i)
  case Nil
  then show ?case by simp
next
  case (Cons d db)
  then show ?case by (cases i) auto
qed

lemma updateOne_nth_queue:
  "i < length db \<Longrightarrow> p_queueId (updateOne F (\<lambda>d. d\<lparr>p_queuePosition := x\<rparr>) db ! i) = p_queueId (db ! i)"
proof (induction db arbitrary: i)
  case Nil
  then show ?case by simp
next
  case (Cons d db)
  then show ?case by (cases i) auto
qed

lemma bulkWritePositions_frame:
  "map p_id (bulkWritePositions qi order index db) = map p_id db
   \<and> (\<forall>i<length db. p_queueId (db ! i) \<noteq> Some qi \<or> p_id (db ! i) \<notin> set order
         \<longrightarrow> bulkWritePositions qi order index db ! i = db ! i)"
proof (induction order arbitrary: index db)
  case Nil
  then show ?case by simp
next
  case (Cons a order)
  let ?db1 = "updateOne (\<lambda>d. p_id d = a \<and> p_queueId d = Some qi)
          (\<lambda>d. d\<lparr>p_queuePosition := Some (int index + 1)\<rparr>) db"
  have ids: "map p_id ?db1 = map p_id db" by (rule updateOne_ids) simp
  have len: "length ?db1 = length db" by (rule updateOne_length)
  from Cons.IH[of "Suc index" ?db1]
  have ih1: "map p_id (bulkWritePositions qi order (Suc index) ?db1) = map p_id ?db1"
    and ih2: "\<And>i. i < length ?db1 \<Longrightarrow>
         p_queueId (?db1 ! i) \<noteq> Some qi \<or> p_id (?db1 ! i) \<notin> set order \<Longrightarrow>
         bulkWritePositions qi order (Suc index) ?db1 ! i = ?db1 ! i"
    by blast+
  have "bulkWritePositions qi (a # order) index db ! i = db ! i"
    if i: "i < length db" and c: "p_queueId (db ! i) \<noteq> Some qi \<or> p_id (db ! i) \<notin> set (a # order)" for i
  proof -
    from c have nf: "\<not> (\<lambda>d. p_id d = a \<and> p_queueId d = Some qi) (db ! i)" by auto
    have same: "?db1 ! i = db ! i"
      by (rule updateOne_nth_other[of i db "\<lambda>d. p_id d = a \<and> p_queueId d = Some qi", OF i nf])
    with c have "p_queueId (?db1 ! i) \<noteq> Some qi \<or> p_id (?db1 ! i) \<notin> set order" by auto
    with ih2[of i] i len same show ?thesis by simp
  qed
  with ih1 ids show ?case by simp
qed

lemma updateOne_nth_hit:
  "i < length db \<Longrightarrow> F (db ! i) \<Longrightarrow> (\<forall>k<i. \<not> F (db ! k)) \<Longrightarrow> updateOne F u db ! i = u (db ! i)"
proof (induction db arbitrary: i)
  case Nil
  then show ?case by simp
next
  case (Cons d db)
  show ?case
  proof (cases i)
    case 0
    with Cons.prems show ?thesis by simp
  next
    case (Suc m)
    with Cons.prems have nd: "\<not> F d" by auto
    from Suc Cons.prems have "\<forall>k<m. \<not> F (db ! k)" by auto
    with Cons.IH[of m] Suc Cons.prems nd show ?thesis by simp
  qed
qed

lemma bulkWritePositions_listed:
  assumes "distinct (map p_id db)" and "distinct order" and "j < length order"
    and "i < length db" and "p_id (db ! i) = order ! j" and "p_queueId (db ! i) = Some qi"
  shows "bulkWritePositions qi order index db ! i
           = (db ! i)\<lparr>p_queuePosition := Some (int (index + j) + 1)\<rparr>"
  using assms
proof (induction order arbitrary: index db j)
  case Nil
  then show ?case by simp
next
  case (Cons a order)
  let ?F = "\<lambda>d. p_id d = a \<and> p_queueId d = Some qi"
  let ?u = "\<lambda>d. d\<lparr>p_queuePosition := Some (int index + 1)\<rparr>"
  let ?db1 = "updateOne ?F ?u db"
  have ids: "map p_id ?db1 = map p_id db" by (rule updateOne_ids) simp
  have len: "length ?db1 = length db" by (rule updateOne_length)
  have i1: "i < length ?db1" using Cons.prems(4) len by simp
  show ?case
  proof (cases j)
    case 0
    with Cons.prems have hit: "?F (db ! i)" by simp
    have "\<not> ?F (db ! k)" if "k < i" for k
    proof -
      from that Cons.prems(4) have "k < length (map p_id db)" "i < length (map p_id db)" "k \<noteq> i"
        by simp_all
      with Cons.prems(1) have "map p_id db ! k \<noteq> map p_id db ! i"
        by (simp only: nth_eq_iff_index_eq not_False_eq_True)
      with that Cons.prems(4) hit show ?thesis by simp
    qed
    then have d1: "?db1 ! i = ?u (db ! i)"
      using updateOne_nth_hit[of i db ?F ?u] Cons.prems(4) hit by blast
    then have "p_id (?db1 ! i) = a" using hit by simp
    with Cons.prems(2) have "p_queueId (?db1 ! i) \<noteq> Some qi \<or> p_id (?db1 ! i) \<notin> set order"
      by simp
    with bulkWritePositions_frame[of qi order "Suc index" ?db1] i1
    have "bulkWritePositions qi order (Suc index) ?db1 ! i = ?db1 ! i" by blast
    with d1 0 show ?thesis by simp
  next
    case (Suc m)
    with Cons.prems have m: "m < length order" "p_id (db ! i) = order ! m" by simp_all
    with Cons.prems(2) have "p_id (db ! i) \<noteq> a" by auto
    then have "\<not> ?F (db ! i)" by simp
    then have same: "?db1 ! i = db ! i"
      using updateOne_nth_other[of i db ?F ?u] Cons.prems(4) by blast
    have "bulkWritePositions qi order (Suc index) ?db1 ! i
        = (?db1 ! i)\<lparr>p_queuePosition := Some (int (Suc index + m) + 1)\<rparr>"
      using Cons.prems(1,2,6) m same ids i1
      by (intro Cons.IH) simp_all
    with same Suc show ?thesis by simp
  qed
qed

text \<open>
  The route hands \<open>req.user._id\<close> over, an ObjectId.  For such a caller the permission
  test fails on every queue, so the request is refused and nothing is written; the test
  passes for the creator's id given as a string.
\<close>

lemma includesPopulated_False: "\<not> includesPopulated documents userId"
  by (simp add: includesPopulated_def list_ex_iff)

lemma reorderQueue_object_id_refused:
  "reorderQueue queues db queueId projectOrder (IdObject i)
     = Inl (Error ''Queue not found or access denied'')
   \<or> reorderQueue queues db queueId projectOrder (IdObject i)
     = Inl (Error ''Insufficient permissions to reorder queue'')"
  by (simp add: reorderQueue_def createdByEquals_def includesPopulated_False
        split: option.splits)

text \<open>
  C9, as amended.  \<open>reorderQueue\<close> does not compare the list with the projects of the queue.
  Whenever its own permission test passes, it succeeds on every list and returns the list;
  the ids and the order of the collection stay, a project that is not in the queue or not
  in the list is left as it was, and, when no id is listed twice, a listed project of the
  queue gets the position of its place in the list, counted from 1.
\<close>

theorem reorderQueue_applies_without_validation:
  assumes "getQueueById queues queueId userId = Some q"
    and "createdByEquals q userId \<or> includesPopulated (q_owners q) userId
           \<or> includesPopulated (q_managers q) userId"
  shows "\<exists>db1.
           reorderQueue queues db queueId projectOrder userId = Inr (projectOrder, db1)
           \<and> map p_id db1 = map p_id db
           \<and> (\<forall>i<length db.
                 p_queueId (db ! i) \<noteq> Some (q_id q) \<or> p_id (db ! i) \<notin> set projectOrder
                 \<longrightarrow> db1 ! i = db ! i)
           \<and> (distinct (map p_id db) \<and> distinct projectOrder \<longrightarrow>
                (\<forall>j<length projectOrder. \<forall>i<length db.
                   p_id (db ! i) = projectOrder ! j \<and> p_queueId (db ! i) = Some (q_id q)
                   \<longrightarrow> db1 ! i = (db ! i)\<lparr>p_queuePosition := Some (int j + 1)\<rparr>))"
proof -
  let ?db1 = "bulkWritePositions (q_id q) projectOrder 0 db"
  have r: "reorderQueue queues db queueId projectOrder userId = Inr (projectOrder, ?db1)"
    using assms by (simp add: reorderQueue_def)
  have listed: "?db1 ! i = (db ! i)\<lparr>p_queuePosition := Some (int j + 1)\<rparr>"
    if "distinct (map p_id db)" "distinct projectOrder" "j < length projectOrder" "i < length db"
      "p_id (db ! i) = projectOrder ! j" "p_queueId (db ! i) = Some (q_id q)" for i j
    using bulkWritePositions_listed[OF that, of 0] by simp
  from r bulkWritePositions_frame[of "q_id q" projectOrder 0 db] listed
  show ?thesis by (intro exI[of _ ?db1]) blast
qed

theorem reorderQueue_applies_without_validation_witness:
  "reorderQueue [exampleQueue Q_fifo]
      [queuedProject 1 5 1, queuedProject 2 5 2, queuedProject 3 5 3, exampleProject 4 5]
      1 [3, 4] (IdString 9)
   = Inr ([3, 4], [queuedProject 1 5 1, queuedProject 2 5 2, queuedProject 3 5 1, exampleProject 4 5])"
proof -
  let ?db = "[queuedProject 1 5 1, queuedProject 2 5 2, queuedProject 3 5 3, exampleProject 4 5]"
  have g: "getQueueById [exampleQueue Q_fifo] 1 (IdString 9) = Some (exampleQueue Q_fifo)"
    by (simp add: getQueueById_def exampleQueue_def)
  have p: "createdByEquals (exampleQueue Q_fifo) (IdString 9)
      \<or> includesPopulated (q_owners (exampleQueue Q_fifo)) (IdString 9)
      \<or> includesPopulated (q_managers (exampleQueue Q_fifo)) (IdString 9)"
    by (simp add: createdByEquals_def exampleQueue_def)
  from reorderQueue_applies_without_validation[OF g p, of ?db "[3, 4]"]
  obtain db1 where r: "reorderQueue [exampleQueue Q_fifo] ?db 1 [3, 4] (IdString 9) = Inr ([3, 4], db1)"
    and ids: "map p_id db1 = map p_id ?db"
    and frame: "\<And>i. i < length ?db \<Longrightarrow>
        p_queueId (?db ! i) \<noteq> Some (q_id (exampleQueue Q_fifo)) \<or> p_id (?db ! i) \<notin> set [3, 4]
        \<Longrightarrow> db1 ! i = ?db ! i"
    and listed: "\<And>i j. distinct (map p_id ?db) \<Longrightarrow> distinct [3, 4::nat] \<Longrightarrow>
        j < length [3, 4::nat] \<Longrightarrow> i < length ?db \<Longrightarrow>
        p_id (?db ! i) = [3, 4] ! j \<Longrightarrow> p_queueId (?db ! i) = Some (q_id (exampleQueue Q_fifo))
        \<Longrightarrow> db1 ! i = (?db ! i)\<lparr>p_queuePosition := Some (int j + 1)\<rparr>"
    by blast
  have len: "length db1 = 4" using arg_cong[OF ids, of length] by simp
  have e0: "db1 ! 0 = queuedProject 1 5 1"
    using frame[of 0] by (simp add: queuedProject_def exampleProject_def exampleQueue_def)
  have e1: "db1 ! 1 = queuedProject 2 5 2"
    using frame[of 1] by (simp add: queuedProject_def exampleProject_def exampleQueue_def)
  have e2: "db1 ! 2 = queuedProject 3 5 1"
    using listed[of 0 2] by (simp add: queuedProject_def exampleProject_def exampleQueue_def)
  have e3: "db1 ! 3 = exampleProject 4 5"
    using frame[of 3] by (simp add: queuedProject_def exampleProject_def exampleQueue_def)
  have "db1 = [queuedProject 1 5 1, queuedProject 2 5 2, queuedProject 3 5 1, exampleProject 4 5]"
  proof (rule nth_equalityI)
    show "length db1 = length [queuedProject 1 5 1, queuedProject 2 5 2, queuedProject 3 5 1, exampleProject 4 5]"
      using len by simp
  next
    fix i assume "i < length db1"
    with len have "i = 0 \<or> i = 1 \<or> i = 2 \<or> i = 3" by auto
    with e0 e1 e2 e3
    show "db1 ! i = [queuedProject 1 5 1, queuedProject 2 5 2, queuedProject 3 5 1, exampleProject 4 5] ! i"
      by auto
  qed
  with r show ?thesis by simp
qed

text \<open>
  The queue holds projects 1, 2 and 3 and the list names project 3 alone; the caller gives
  the creator's id as a string.  The call succeeds and projects 1 and 3 are both at
  position 1.
\<close>

theorem reorderQueue_partial_list_counterexample:
  "reorderQueue [exampleQueue Q_fifo]
      [queuedProject 1 5 1, queuedProject 2 5 2, queuedProject 3 5 3] 1 [3] (IdString 9)
   = Inr ([3], [queuedProject 1 5 1, queuedProject 2 5 2, queuedProject 3 5 1])"
  by code_simp

end
